theory Spec2Isabelle
  imports Complex_Main "HOL-Library.Sublist" "HOL-Library.Multiset"
begin

section \<open>JavaScript values\<close>

text \<open>
  Custom attributes of a line item are untyped key/value pairs, so their names and
  values are modelled as JavaScript values. Numbers that occur there are integers.
\<close>

datatype jsval = JUndefined | JNull | JBool bool | JNum int | JStr string

fun truthy :: "jsval \<Rightarrow> bool" where
  "truthy JUndefined = False"
| "truthy JNull = False"
| "truthy (JBool b) = b"
| "truthy (JNum n) = (n \<noteq> 0)"
| "truthy (JStr s) = (s \<noteq> [])"

text \<open>
  A typed property of an object: absent (it reads as \<open>undefined\<close>), \<open>null\<close>, or a
  value of its type.
\<close>

datatype 'a jsopt = Undefined | Null | Val 'a

fun truthy_opt :: "('a \<Rightarrow> bool) \<Rightarrow> 'a jsopt \<Rightarrow> bool" where
  "truthy_opt t (Val v) = t v"
| "truthy_opt t Undefined = False"
| "truthy_opt t Null = False"

definition truthy_s :: "string jsopt \<Rightarrow> bool" where
  "truthy_s x = truthy_opt (\<lambda>s. s \<noteq> []) x"

definition truthy_n :: "int jsopt \<Rightarrow> bool" where
  "truthy_n x = truthy_opt (\<lambda>n. n \<noteq> 0) x"

definition truthy_b :: "bool jsopt \<Rightarrow> bool" where
  "truthy_b x = truthy_opt (\<lambda>b. b) x"

text \<open>\<open>x || d\<close> for a string-typed and for a number-typed property.\<close>

definition or_s :: "string jsopt \<Rightarrow> string jsopt \<Rightarrow> string jsopt" where
  "or_s x d = (if truthy_s x then x else d)"

definition or_n :: "int jsopt \<Rightarrow> int jsopt \<Rightarrow> int jsopt" where
  "or_n x d = (if truthy_n x then x else d)"

text \<open>An array-valued property that may be absent: \<open>xs?.some(p)\<close> and \<open>xs?.forEach(f)\<close>.\<close>

fun opt_some :: "('a \<Rightarrow> bool) \<Rightarrow> 'a list jsopt \<Rightarrow> bool" where
  "opt_some p (Val xs) = list_ex p xs"
| "opt_some p Undefined = False"
| "opt_some p Null = False"

fun opt_elems :: "'a list jsopt \<Rightarrow> 'a list" where
  "opt_elems (Val xs) = xs"
| "opt_elems Undefined = []"
| "opt_elems Null = []"

section \<open>Orders as the fetcher produces them\<close>

record property =
  prop_name :: jsval
  prop_value :: jsval

record line_item =
  item_id :: string
  item_title :: string
  item_quantity :: int
  item_price :: string
  item_product_id :: "string jsopt"
  item_variant_id :: "string jsopt"
  properties :: "property list jsopt"

record order =
  order_id :: string
  order_name :: string
  order_number :: string
  order_created_at :: string
  order_total_price :: string
  order_currency :: string
  order_email :: "string jsopt"
  line_items :: "line_item list jsopt"

section \<open>Order filter: \<open>filterSBBOrders\<close> and \<open>extractSessionIds\<close>\<close>

definition is_try_on :: "property \<Rightarrow> bool" where
  "is_try_on prop = (prop_name prop = JStr ''_sbb_try_on'' \<and> prop_value prop = JStr ''true'')"

definition has_sbb_item :: "order \<Rightarrow> bool" where
  "has_sbb_item order =
     opt_some (\<lambda>item. opt_some is_try_on (properties item)) (line_items order)"

definition filterSBBOrders :: "order list \<Rightarrow> order list" where
  "filterSBBOrders orders = filter has_sbb_item orders"

definition is_session_id :: "property \<Rightarrow> bool" where
  "is_session_id prop = (prop_name prop = JStr ''_sbb_session_id'' \<and> truthy (prop_value prop))"

text \<open>\<open>[...new Set(xs)]\<close>: the first occurrence of each value, in insertion order.\<close>

definition set_add :: "'a list \<Rightarrow> 'a \<Rightarrow> 'a list" where
  "set_add acc x = (if x \<in> set acc then acc else acc @ [x])"

definition spread_new_Set :: "'a list \<Rightarrow> 'a list" where
  "spread_new_Set xs = foldl set_add [] xs"

definition pushed_session_ids :: "order \<Rightarrow> jsval list" where
  "pushed_session_ids order =
     concat (map (\<lambda>item. map prop_value (filter is_session_id (opt_elems (properties item))))
                 (opt_elems (line_items order)))"

definition extractSessionIds :: "order \<Rightarrow> jsval list" where
  "extractSessionIds order = spread_new_Set (pushed_session_ids order)"

text \<open>The selection and extraction criteria in the words of the specification.\<close>

definition carries :: "order \<Rightarrow> jsval \<Rightarrow> jsval \<Rightarrow> bool" where
  "carries order k v =
     (\<exists>items item props prop.
        line_items order = Val items \<and> item \<in> set items \<and>
        properties item = Val props \<and> prop \<in> set props \<and>
        prop_name prop = k \<and> prop_value prop = v)"

definition no_attributes :: "order \<Rightarrow> bool" where
  "no_attributes order =
     (line_items order \<in> {Undefined, Null, Val []} \<or>
      (\<exists>items. line_items order = Val items \<and>
         (\<forall>item \<in> set items. properties item \<in> {Undefined, Null, Val []})))"

section \<open>Errors, sessions and the GraphQL wire format\<close>

text \<open>A thrown JavaScript error: its \<open>name\<close> and its \<open>message\<close>.\<close>

datatype error = Err (err_name: string) (err_message: string)

record session =
  session_shop :: string
  session_accessToken :: string

text \<open>
  The query built by \<open>buildOrdersQuery\<close>, by its three variable parts: the page size, the
  \<open>after\<close> clause and the \<open>created_at:>=\<close> filter (the selection set is constant).
\<close>

record query =
  q_first :: nat
  q_after :: "string option"
  q_created_at_min :: "string option"

record request =
  req_shop :: string
  req_accessToken :: string
  req_query :: query

record gql_line_item =
  gli_id :: string
  gli_title :: string
  gli_quantity :: int
  gli_amount :: string
  gli_product :: "string jsopt"
  gli_variant :: "string jsopt"
  gli_customAttributes :: "(jsval \<times> jsval) list"

record gql_node =
  node_id :: string
  node_name :: string
  node_createdAt :: string
  node_amount :: string
  node_currencyCode :: string
  node_lineItems :: "gql_line_item list"

record edge =
  edge_cursor :: string
  edge_node :: gql_node

record orders_data =
  edges :: "edge list"
  hasNextPage :: bool

text \<open>
  A parsed response body: \<open>resp_errors\<close> is the JSON text of a truthy \<open>errors\<close> member
  (\<open>None\<close> when there is none), \<open>resp_orders\<close> is \<open>data?.orders\<close> (\<open>None\<close> when falsy).
\<close>

record response =
  resp_errors :: "string option"
  resp_orders :: "orders_data option"

text \<open>
  What one HTTP call does: \<open>fetch\<close> or reading the body throws; or the response is not
  \<open>ok\<close> and has a status, a status text and a body; or it is \<open>ok\<close> and parses.
\<close>

datatype http_outcome = Rejects error | Status nat string string | Json response

section \<open>Stored records\<close>

record checkpoint =
  is_syncing :: "bool jsopt"
  last_sync_time :: "string jsopt"
  last_synced_order_id :: "string jsopt"
  last_synced_order_number :: "string jsopt"
  last_synced_order_created_at :: "string jsopt"
  total_orders_synced :: "int jsopt"
  last_sync_count :: "int jsopt"

text \<open>
  A shop item, by the attributes the order sync reads or writes; \<open>shop_order_sync\<close> is
  \<open>None\<close> when the item has no \<open>order_sync\<close> attribute.
\<close>

record shop =
  shop_domain :: string
  shop_created_at :: "string jsopt"
  shop_updated_at :: "string jsopt"
  shop_order_sync :: "checkpoint option"

record stored_item =
  si_product_id :: "string jsopt"
  si_variant_id :: "string jsopt"
  si_title :: string
  si_quantity :: int
  si_price :: string

record imported_order =
  io_order_id :: string
  io_shop_domain :: string
  io_order_number :: string
  io_total_price :: real
  io_currency :: string
  io_customer_email :: "string jsopt"
  io_line_items :: "stored_item list"
  io_has_sbb_items :: bool
  io_sbb_session_ids :: "jsval list"
  io_created_at :: string
  io_synced_at :: string

section \<open>The environment and the observable state\<close>

text \<open>
  Everything outside the program is an oracle: \<open>db_fault n\<close> is the failure, if any, of the
  \<open>n\<close>-th storage call, \<open>http n\<close> what the \<open>n\<close>-th HTTP call does, \<open>clock n\<close> the \<open>n\<close>-th reading
  of \<open>new Date().toISOString()\<close>, \<open>date_ms\<close> the milliseconds of \<open>new Date(s)\<close> (\<open>None\<close>
  for an invalid date), \<open>parseFloat\<close> the number a string parses to, and \<open>engine_order\<close>
  the arrangement in which the engine's \<open>sort\<close> leaves an array whose comparator is not
  consistent.
\<close>

record env =
  db_fault :: "nat \<Rightarrow> error option"
  http :: "nat \<Rightarrow> http_outcome"
  clock :: "nat \<Rightarrow> string"
  date_ms :: "string \<Rightarrow> int option"
  parseFloat :: "string \<Rightarrow> real"
  engine_order :: "order list \<Rightarrow> order list"

text \<open>
  The state: both tables, and the trace of effects so far (storage calls made, requests
  sent, clock readings taken, sleeps in milliseconds).
\<close>

record world =
  shops_table :: "string \<rightharpoonup> shop"
  orders_table :: "string \<rightharpoonup> imported_order"
  db_ops :: nat
  http_log :: "request list"
  clock_reads :: nat
  slept :: "nat list"

definition sleep :: "nat \<Rightarrow> world \<Rightarrow> world" where
  "sleep ms w = w\<lparr>slept := slept w @ [ms]\<rparr>"

definition now :: "env \<Rightarrow> world \<Rightarrow> string \<times> world" where
  "now env w = (clock env (clock_reads w), w\<lparr>clock_reads := Suc (clock_reads w)\<rparr>)"

section \<open>Order fetcher: \<open>ShopifyAPIService\<close>\<close>

definition digit :: "nat \<Rightarrow> char" where
  "digit n = ''0123456789'' ! n"

function dec :: "nat \<Rightarrow> string" where
  "dec n = (if n < 10 then [digit n] else dec (n div 10) @ [digit (n mod 10)])"
  by pat_completeness auto
termination
  by (relation "measure (\<lambda>n. n)") auto

declare dec.simps [simp del]

text \<open>\<open>s.includes(needle)\<close>\<close>

fun str_includes :: "string \<Rightarrow> string \<Rightarrow> bool" where
  "str_includes [] needle = (needle = [])"
| "str_includes (c # cs) needle = (prefix needle (c # cs) \<or> str_includes cs needle)"

definition buildOrdersQuery :: "nat \<Rightarrow> string jsopt \<Rightarrow> string jsopt \<Rightarrow> query" where
  "buildOrdersQuery limit cursor createdAtMin =
     \<lparr>q_first = limit,
      q_after = (case cursor of Val c \<Rightarrow> (if c \<noteq> [] then Some c else None) | _ \<Rightarrow> None),
      q_created_at_min =
        (case createdAtMin of Val t \<Rightarrow> (if t \<noteq> [] then Some t else None) | _ \<Rightarrow> None)\<rparr>"

text \<open>\<open>s.split('/').pop()\<close>\<close>

definition last_segment :: "string \<Rightarrow> string" where
  "last_segment s = rev (takeWhile (\<lambda>c. c \<noteq> CHR ''/'') (rev s))"

definition segment_or_null :: "string jsopt \<Rightarrow> string jsopt" where
  "segment_or_null x =
     (case x of Val i \<Rightarrow> or_s (Val (last_segment i)) Null | _ \<Rightarrow> Null)"

definition transformLineItem :: "gql_line_item \<Rightarrow> line_item" where
  "transformLineItem n =
     \<lparr>item_id = last_segment (gli_id n),
      item_title = gli_title n,
      item_quantity = gli_quantity n,
      item_price = gli_amount n,
      item_product_id = segment_or_null (gli_product n),
      item_variant_id = segment_or_null (gli_variant n),
      properties = Val (map (\<lambda>(k, v). \<lparr>prop_name = k, prop_value = v\<rparr>) (gli_customAttributes n))\<rparr>"

definition transformGraphQLOrder :: "gql_node \<Rightarrow> order" where
  "transformGraphQLOrder node =
     \<lparr>order_id = last_segment (node_id node),
      order_name = node_name node,
      order_number = node_name node,
      order_created_at = node_createdAt node,
      order_total_price = node_amount node,
      order_currency = node_currencyCode node,
      order_email = Undefined,
      line_items = Val (map transformLineItem (node_lineItems node))\<rparr>"

text \<open>
  The function passed to \<open>fetchWithRetry\<close>: one HTTP call. It throws what \<open>fetch\<close>
  throws, throws an \<open>Error\<close> that quotes the status when the response is not \<open>ok\<close>, and
  returns the parsed body otherwise.
\<close>

definition outcome_result :: "http_outcome \<Rightarrow> error + response" where
  "outcome_result out =
     (case out of
        Rejects e \<Rightarrow> Inl e
      | Status code text body \<Rightarrow>
          Inl (Err ''Error''
            (''Shopify GraphQL error: '' @ dec code @ '' '' @ text @ '' - '' @ body))
      | Json r \<Rightarrow> Inr r)"

definition request_of :: "session \<Rightarrow> query \<Rightarrow> request" where
  "request_of s q =
     \<lparr>req_shop = session_shop s, req_accessToken = session_accessToken s, req_query = q\<rparr>"

definition http_call :: "env \<Rightarrow> session \<Rightarrow> query \<Rightarrow> world \<Rightarrow> (error + response) \<times> world" where
  "http_call env s q w =
     (outcome_result (http env (length (http_log w))),
      w\<lparr>http_log := http_log w @ [request_of s q]\<rparr>)"

text \<open>
  \<open>fetchWithRetry\<close>: the \<open>for\<close> loop over \<open>attempt\<close>. Falling out of the loop returns
  \<open>undefined\<close>, here \<open>Inr None\<close>.
\<close>

function retry_loop ::
  "(world \<Rightarrow> (error + 'a) \<times> world) \<Rightarrow> nat \<Rightarrow> nat \<Rightarrow> world \<Rightarrow> (error + 'a option) \<times> world" where
  "retry_loop fetchFunction maxRetries attempt w =
     (if attempt \<le> maxRetries then
        (case fetchFunction w of
           (Inr r, w1) \<Rightarrow> (Inr (Some r), w1)
         | (Inl e, w1) \<Rightarrow>
             if str_includes (err_message e) ''429'' \<and> attempt < maxRetries
             then retry_loop fetchFunction maxRetries (attempt + 1) (sleep 2000 w1)
             else (Inl e, w1))
      else (Inr None, w))"
  by pat_completeness auto
termination
  by (relation "measure (\<lambda>(f, maxRetries, attempt, w). Suc maxRetries - attempt)") auto

declare retry_loop.simps [simp del]

definition fetchWithRetry ::
  "(world \<Rightarrow> (error + 'a) \<times> world) \<Rightarrow> nat \<Rightarrow> world \<Rightarrow> (error + 'a option) \<times> world" where
  "fetchWithRetry fetchFunction maxRetries w = retry_loop fetchFunction maxRetries 1 w"

text \<open>\<open>fetchOrders\<close>: the \<open>while\<close> loop over the pages, then the function with its defaults.\<close>

function fetch_pages ::
  "env \<Rightarrow> session \<Rightarrow> nat \<Rightarrow> string jsopt \<Rightarrow> nat \<Rightarrow> order list \<Rightarrow> nat \<Rightarrow> bool \<Rightarrow> string jsopt
     \<Rightarrow> world \<Rightarrow> (error + order list) \<times> world" where
  "fetch_pages env s limit created_at_min max_pages allOrders page hasNext cursor w =
     (if hasNext \<and> page \<le> max_pages then
        (case fetchWithRetry (http_call env s (buildOrdersQuery limit cursor created_at_min)) 3 w of
           (Inl e, w1) \<Rightarrow> (Inl e, w1)
         | (Inr None, w1) \<Rightarrow>
             (Inl (Err ''TypeError'' ''Cannot read properties of undefined''), w1)
         | (Inr (Some r), w1) \<Rightarrow>
             (case resp_errors r of
                Some js \<Rightarrow> (Inl (Err ''Error'' (''GraphQL errors: '' @ js)), w1)
              | None \<Rightarrow>
                 (case resp_orders r of
                    None \<Rightarrow> (Inl (Err ''Error'' ''No orders data in response''), w1)
                  | Some ordersData \<Rightarrow>
                      fetch_pages env s limit created_at_min max_pages
                        (allOrders @ map (\<lambda>e. transformGraphQLOrder (edge_node e)) (edges ordersData))
                        (page + 1)
                        (hasNextPage ordersData)
                        (if hasNextPage ordersData \<and> edges ordersData \<noteq> []
                         then Val (edge_cursor (last (edges ordersData))) else cursor)
                        (if hasNextPage ordersData then sleep 500 w1 else w1))))
      else (Inr allOrders, w))"
  by pat_completeness auto
termination
  by (relation "measure (\<lambda>(env, s, limit, created_at_min, max_pages, allOrders, page, hasNext,
        cursor, w). Suc max_pages - page)") auto

declare fetch_pages.simps [simp del]

record fetch_options =
  opt_limit :: "nat option"
  opt_created_at_min :: "string jsopt"
  opt_max_pages :: "nat option"

text \<open>The defaults of the destructured options.\<close>

definition limit_of :: "fetch_options \<Rightarrow> nat" where
  "limit_of options = (case opt_limit options of None \<Rightarrow> 250 | Some l \<Rightarrow> l)"

definition created_at_min_of :: "fetch_options \<Rightarrow> string jsopt" where
  "created_at_min_of options = (case opt_created_at_min options of Undefined \<Rightarrow> Null | c \<Rightarrow> c)"

definition max_pages_of :: "fetch_options \<Rightarrow> nat" where
  "max_pages_of options = (case opt_max_pages options of None \<Rightarrow> 10 | Some m \<Rightarrow> m)"

definition fetchOrders :: "env \<Rightarrow> session \<Rightarrow> fetch_options \<Rightarrow> world \<Rightarrow> (error + order list) \<times> world" where
  "fetchOrders env s options w =
     fetch_pages env s (limit_of options) (created_at_min_of options) (max_pages_of options)
       [] 1 True Null w"

section \<open>Storage: the document client and its three commands\<close>

text \<open>
  \<open>docClient.send\<close> either fails, leaving the tables as they are, or runs the command. A
  \<open>GetCommand\<close> reads the item of a key. The \<open>UpdateCommand\<close> of the shop model sets
  \<open>order_sync\<close> and \<open>updated_at\<close> on the item of the key, creating the item when there is
  none. The \<open>PutCommand\<close> of the order model carries the condition
  \<open>attribute_not_exists(order_id)\<close>: it fails with \<open>ConditionalCheckFailedException\<close> when
  the key is taken and writes the item otherwise.
\<close>

definition docClient_send ::
  "env \<Rightarrow> (world \<Rightarrow> (error + 'a) \<times> world) \<Rightarrow> world \<Rightarrow> (error + 'a) \<times> world" where
  "docClient_send env command w =
     (let w1 = w\<lparr>db_ops := Suc (db_ops w)\<rparr>
      in case db_fault env (db_ops w) of Some e \<Rightarrow> (Inl e, w1) | None \<Rightarrow> command w1)"

definition GetCommand_shop :: "string \<Rightarrow> world \<Rightarrow> (error + shop option) \<times> world" where
  "GetCommand_shop d w = (Inr (shops_table w d), w)"

definition UpdateCommand_order_sync ::
  "string \<Rightarrow> checkpoint \<Rightarrow> string \<Rightarrow> world \<Rightarrow> (error + shop) \<times> world" where
  "UpdateCommand_order_sync d sync_data t w =
     (let item = (case shops_table w d of
                    None \<Rightarrow> \<lparr>shop_domain = d, shop_created_at = Undefined,
                              shop_updated_at = Val t, shop_order_sync = Some sync_data\<rparr>
                  | Some s \<Rightarrow> s\<lparr>shop_order_sync := Some sync_data, shop_updated_at := Val t\<rparr>)
      in (Inr item, w\<lparr>shops_table := (shops_table w)(d \<mapsto> item)\<rparr>))"

definition PutCommand_order :: "imported_order \<Rightarrow> world \<Rightarrow> (error + unit) \<times> world" where
  "PutCommand_order item w =
     (case orders_table w (io_order_id item) of
        Some old \<Rightarrow>
          (Inl (Err ''ConditionalCheckFailedException'' ''The conditional request failed''), w)
      | None \<Rightarrow> (Inr (), w\<lparr>orders_table := (orders_table w)(io_order_id item \<mapsto> item)\<rparr>))"

section \<open>Shop model\<close>

definition ShopModel_findOne :: "env \<Rightarrow> string \<Rightarrow> world \<Rightarrow> (error + shop option) \<times> world" where
  "ShopModel_findOne env d w = docClient_send env (GetCommand_shop d) w"

definition updateOrderSync :: "env \<Rightarrow> string \<Rightarrow> checkpoint \<Rightarrow> world \<Rightarrow> (error + shop) \<times> world" where
  "updateOrderSync env d syncData w =
     (case now env w of (t, w1) \<Rightarrow> docClient_send env (UpdateCommand_order_sync d syncData t) w1)"

text \<open>\<open>shop.order_sync?.field\<close>\<close>

definition order_sync_field :: "shop \<Rightarrow> (checkpoint \<Rightarrow> 'a jsopt) \<Rightarrow> 'a jsopt" where
  "order_sync_field s field = (case shop_order_sync s of None \<Rightarrow> Undefined | Some c \<Rightarrow> field c)"

definition setSyncingFlag :: "env \<Rightarrow> string \<Rightarrow> bool \<Rightarrow> world \<Rightarrow> (error + shop) \<times> world" where
  "setSyncingFlag env d flag w =
     (case ShopModel_findOne env d w of
        (Inl e, w1) \<Rightarrow> (Inl e, w1)
      | (Inr None, w1) \<Rightarrow> (Inl (Err ''Error'' ''Shop not found''), w1)
      | (Inr (Some s), w1) \<Rightarrow>
          (let orderSync =
             \<lparr>is_syncing = Val flag,
              last_sync_time = or_s (order_sync_field s last_sync_time) Null,
              last_synced_order_id = or_s (order_sync_field s last_synced_order_id) Null,
              last_synced_order_number = or_s (order_sync_field s last_synced_order_number) Null,
              last_synced_order_created_at =
                or_s (order_sync_field s last_synced_order_created_at) Null,
              total_orders_synced = or_n (order_sync_field s total_orders_synced) (Val 0),
              last_sync_count = or_n (order_sync_field s last_sync_count) (Val 0)\<rparr>
           in case now env w1 of
                (t, w2) \<Rightarrow> docClient_send env (UpdateCommand_order_sync d orderSync t) w2))"

section \<open>Order model\<close>

record order_data =
  od_order_id :: string
  od_shop_domain :: string
  od_order_number :: string
  od_total_price :: real
  od_currency :: "string jsopt"
  od_customer_email :: "string jsopt"
  od_line_items :: "stored_item list jsopt"
  od_has_sbb_items :: "bool jsopt"
  od_sbb_session_ids :: "jsval list jsopt"
  od_created_at :: "string jsopt"

text \<open>\<open>x || 'text'\<close> where the result is used as a string.\<close>

definition str_or :: "string jsopt \<Rightarrow> string \<Rightarrow> string" where
  "str_or x d = (case x of Val s \<Rightarrow> (if s \<noteq> [] then s else d) | _ \<Rightarrow> d)"

text \<open>
  \<open>OrderModel.create\<close>. The identifier is a string, so \<open>toString\<close> returns it; the price
  is a number already, and \<open>parseFloat\<close> of a number gives the number back. \<open>Inr None\<close>
  is the \<open>null\<close> returned when the order already exists.
\<close>

definition OrderModel_create ::
  "env \<Rightarrow> order_data \<Rightarrow> world \<Rightarrow> (error + imported_order option) \<times> world" where
  "OrderModel_create env orderData w =
     (case (if truthy_s (od_created_at orderData)
            then (str_or (od_created_at orderData) [], w) else now env w) of
        (created, w1) \<Rightarrow>
          (case now env w1 of
             (synced, w2) \<Rightarrow>
               (let order =
                  \<lparr>io_order_id = od_order_id orderData,
                   io_shop_domain = od_shop_domain orderData,
                   io_order_number = od_order_number orderData,
                   io_total_price = od_total_price orderData,
                   io_currency = str_or (od_currency orderData) ''USD'',
                   io_customer_email = or_s (od_customer_email orderData) Null,
                   io_line_items = opt_elems (od_line_items orderData),
                   io_has_sbb_items = truthy_b (od_has_sbb_items orderData),
                   io_sbb_session_ids = opt_elems (od_sbb_session_ids orderData),
                   io_created_at = created,
                   io_synced_at = synced\<rparr>
                in case docClient_send env (PutCommand_order order) w2 of
                     (Inr u, w3) \<Rightarrow> (Inr (Some order), w3)
                   | (Inl e, w3) \<Rightarrow>
                       if err_name e = ''ConditionalCheckFailedException''
                       then (Inr None, w3) else (Inl e, w3))))"

section \<open>Sync orchestrator: \<open>POST /api/sync-orders\<close>\<close>

record sync_request =
  body_shop_domain :: "string jsopt"
  body_session :: "session option"

datatype outcome =
    BadRequest
  | ShopNotFound
  | AlreadyInProgress
  | NoNewOrders (out_total_orders: int) (out_last_sync_time: string)
  | Synced (out_new_orders: int) (out_duplicates_skipped: int) (out_total: int)
      (out_total_revenue: real) (out_sync_time: string)
  | Failed (out_message: string)

definition syncStartDate :: "shop \<Rightarrow> string jsopt" where
  "syncStartDate s =
     (let lastSyncTime = order_sync_field s last_synced_order_created_at;
          isFirstSync = \<not> truthy_s lastSyncTime
      in if isFirstSync then shop_created_at s else lastSyncTime)"

definition fetchOptions :: "shop \<Rightarrow> fetch_options" where
  "fetchOptions s =
     \<lparr>opt_limit = Some 250, opt_created_at_min = syncStartDate s, opt_max_pages = None\<rparr>"

text \<open>
  \<open>sbbOrders.sort((a, b) => new Date(b.created_at) - new Date(a.created_at))\<close>. The sort
  of an array is stable. When every date is valid the comparator is consistent and the
  result is the stable sorted arrangement, which insertion from the right computes. When a
  date is invalid the comparison is \<open>NaN\<close> and the arrangement is the engine's own: it is
  \<open>engine_order\<close>, which rearranges the array (a value that does not is read as leaving
  the array as it is).
\<close>

definition newest_first :: "env \<Rightarrow> order \<Rightarrow> order \<Rightarrow> int" where
  "newest_first env a b =
     (case (date_ms env (order_created_at b), date_ms env (order_created_at a)) of
        (Some tb, Some ta) \<Rightarrow> tb - ta
      | _ \<Rightarrow> 0)"

fun insert_sorted :: "('a \<Rightarrow> 'a \<Rightarrow> int) \<Rightarrow> 'a \<Rightarrow> 'a list \<Rightarrow> 'a list" where
  "insert_sorted cmp x [] = [x]"
| "insert_sorted cmp x (y # ys) =
     (if cmp x y \<le> 0 then x # y # ys else y # insert_sorted cmp x ys)"

definition array_sort :: "('a \<Rightarrow> 'a \<Rightarrow> int) \<Rightarrow> 'a list \<Rightarrow> 'a list" where
  "array_sort cmp xs = foldr (insert_sorted cmp) xs []"

definition valid_dates :: "env \<Rightarrow> order list \<Rightarrow> bool" where
  "valid_dates env os = list_all (\<lambda>order. date_ms env (order_created_at order) \<noteq> None) os"

definition sort_newest_first :: "env \<Rightarrow> order list \<Rightarrow> order list" where
  "sort_newest_first env sbbOrders =
     (if valid_dates env sbbOrders then array_sort (newest_first env) sbbOrders
      else if mset (engine_order env sbbOrders) = mset sbbOrders then engine_order env sbbOrders
      else sbbOrders)"

record tally =
  newOrdersCount :: int
  duplicatesSkipped :: int
  totalRevenue :: real

definition parse_price :: "env \<Rightarrow> string \<Rightarrow> real" where
  "parse_price env s = (if s \<noteq> [] then parseFloat env s else 0)"

definition number_or_name :: "order \<Rightarrow> string" where
  "number_or_name order = (if order_number order \<noteq> [] then order_number order else order_name order)"

definition to_stored_item :: "line_item \<Rightarrow> stored_item" where
  "to_stored_item item =
     \<lparr>si_product_id = item_product_id item, si_variant_id = item_variant_id item,
      si_title = item_title item, si_quantity = item_quantity item, si_price = item_price item\<rparr>"

text \<open>
  One turn of the \<open>for\<close> loop with its own \<open>try\<close>/\<open>catch\<close>: a \<open>TypeError\<close> from
  \<open>order.line_items.map\<close> and an error from \<open>create\<close> are logged and the loop goes on.
\<close>

definition store_order :: "env \<Rightarrow> string \<Rightarrow> tally \<times> world \<Rightarrow> order \<Rightarrow> tally \<times> world" where
  "store_order env d acc order =
     (case acc of (t, w) \<Rightarrow>
        (let sessionIds = extractSessionIds order
         in case line_items order of
              Val items \<Rightarrow>
                (case OrderModel_create env
                        \<lparr>od_order_id = order_id order,
                         od_shop_domain = d,
                         od_order_number = number_or_name order,
                         od_total_price = parse_price env (order_total_price order),
                         od_currency = Val (order_currency order),
                         od_customer_email = order_email order,
                         od_line_items = Val (map to_stored_item items),
                         od_has_sbb_items = Val True,
                         od_sbb_session_ids = Val sessionIds,
                         od_created_at = Val (order_created_at order)\<rparr> w of
                   (Inr (Some created), w1) \<Rightarrow>
                     (t\<lparr>newOrdersCount := newOrdersCount t + 1,
                        totalRevenue := totalRevenue t + io_total_price created\<rparr>, w1)
                 | (Inr None, w1) \<Rightarrow> (t\<lparr>duplicatesSkipped := duplicatesSkipped t + 1\<rparr>, w1)
                 | (Inl e, w1) \<Rightarrow> (t, w1))
            | _ \<Rightarrow> (t, w)))"

definition store_orders :: "env \<Rightarrow> string \<Rightarrow> order list \<Rightarrow> world \<Rightarrow> tally \<times> world" where
  "store_orders env d sbbOrders w =
     foldl (store_order env d)
       (\<lparr>newOrdersCount = 0, duplicatesSkipped = 0, totalRevenue = 0\<rparr>, w) sbbOrders"

definition empty_object :: checkpoint where
  "empty_object =
     \<lparr>is_syncing = Undefined, last_sync_time = Undefined, last_synced_order_id = Undefined,
      last_synced_order_number = Undefined, last_synced_order_created_at = Undefined,
      total_orders_synced = Undefined, last_sync_count = Undefined\<rparr>"

text \<open>\<open>(x || 0)\<close> used as a number.\<close>

definition num_or_0 :: "int jsopt \<Rightarrow> int" where
  "num_or_0 x = (case x of Val n \<Rightarrow> n | _ \<Rightarrow> 0)"

text \<open>The inner \<open>try\<close> block: \<open>Inl\<close> is an error thrown out of it.\<close>

definition sync_body :: "env \<Rightarrow> string \<Rightarrow> session \<Rightarrow> shop \<Rightarrow> world \<Rightarrow> (error + outcome) \<times> world" where
  "sync_body env d session s w =
     (case fetchOrders env session (fetchOptions s) w of
        (Inl e, w1) \<Rightarrow> (Inl e, w1)
      | (Inr allOrders, w1) \<Rightarrow>
          (let sbbOrders = filterSBBOrders allOrders
           in if sbbOrders = [] then
                (case now env w1 of
                   (t, w2) \<Rightarrow>
                     (let syncData =
                        (case shop_order_sync s of None \<Rightarrow> empty_object | Some c \<Rightarrow> c)
                          \<lparr>last_sync_time := Val t, is_syncing := Val False\<rparr>
                      in case updateOrderSync env d syncData w2 of
                           (Inl e, w3) \<Rightarrow> (Inl e, w3)
                         | (Inr a, w3) \<Rightarrow>
                             (Inr (NoNewOrders
                                (num_or_0 (order_sync_field s total_orders_synced)) t), w3)))
              else
                (case store_orders env d (sort_newest_first env sbbOrders) w1 of
                   (t, w2) \<Rightarrow>
                     (case sort_newest_first env sbbOrders of
                        [] \<Rightarrow> (Inl (Err ''TypeError'' ''Cannot read properties of undefined''), w2)
                      | latestOrder # rest \<Rightarrow>
                          (let currentTotal =
                             num_or_0 (order_sync_field s total_orders_synced) + newOrdersCount t
                           in case now env w2 of
                                (time, w3) \<Rightarrow>
                                  (let syncData =
                                     \<lparr>is_syncing = Val False,
                                      last_sync_time = Val time,
                                      last_synced_order_id = Val (order_id latestOrder),
                                      last_synced_order_number = Val (number_or_name latestOrder),
                                      last_synced_order_created_at =
                                        Val (order_created_at latestOrder),
                                      total_orders_synced = Val currentTotal,
                                      last_sync_count = Val (newOrdersCount t)\<rparr>
                                   in case updateOrderSync env d syncData w3 of
                                        (Inl e, w4) \<Rightarrow> (Inl e, w4)
                                      | (Inr a, w4) \<Rightarrow>
                                          (Inr (Synced (newOrdersCount t) (duplicatesSkipped t)
                                             currentTotal (totalRevenue t) time), w4)))))))"

definition sync_orders :: "env \<Rightarrow> sync_request \<Rightarrow> world \<Rightarrow> outcome \<times> world" where
  "sync_orders env req w =
     (case body_session req of
        None \<Rightarrow> (BadRequest, w)
      | Some session \<Rightarrow>
          if \<not> truthy_s (body_shop_domain req) then (BadRequest, w)
          else
            (let d = str_or (body_shop_domain req) []
             in case ShopModel_findOne env d w of
                  (Inl e, w1) \<Rightarrow> (Failed (err_message e), w1)
                | (Inr None, w1) \<Rightarrow> (ShopNotFound, w1)
                | (Inr (Some s), w1) \<Rightarrow>
                    if truthy_b (order_sync_field s is_syncing) then (AlreadyInProgress, w1)
                    else
                      (case setSyncingFlag env d True w1 of
                         (Inl e, w2) \<Rightarrow> (Failed (err_message e), w2)
                       | (Inr a, w2) \<Rightarrow>
                           (case sync_body env d session s w2 of
                              (Inr out, w3) \<Rightarrow> (out, w3)
                            | (Inl e, w3) \<Rightarrow>
                                (case setSyncingFlag env d False w3 of
                                   (Inl e', w4) \<Rightarrow> (Failed (err_message e'), w4)
                                 | (Inr b, w4) \<Rightarrow> (Failed (err_message e), w4))))))"

section \<open>Vocabulary of the specification\<close>

text \<open>A field of the checkpoint that storage holds for a shop; \<open>undefined\<close> when absent.\<close>

definition checkpoint_field :: "world \<Rightarrow> string \<Rightarrow> (checkpoint \<Rightarrow> 'a jsopt) \<Rightarrow> 'a jsopt" where
  "checkpoint_field w d field =
     (case shops_table w d of None \<Rightarrow> Undefined | Some s \<Rightarrow> order_sync_field s field)"

text \<open>
  A rewritten field keeps the stored value and takes the default where storage has none:
  the reading of the specification.
\<close>

definition kept_or_defaulted :: "'a jsopt \<Rightarrow> 'a jsopt \<Rightarrow> 'a jsopt \<Rightarrow> bool" where
  "kept_or_defaulted old dflt new = (case old of Val v \<Rightarrow> new = Val v | _ \<Rightarrow> new = dflt)"

text \<open>What \<open>||\<close> does: a falsy stored value, the empty string too, gives way to the default.\<close>

definition preserved_or_null :: "string jsopt \<Rightarrow> string jsopt \<Rightarrow> bool" where
  "preserved_or_null old new =
     (case old of Val v \<Rightarrow> (if v = [] then new = Null else new = Val v) | _ \<Rightarrow> new = Null)"

definition preserved_or_zero :: "int jsopt \<Rightarrow> int jsopt \<Rightarrow> bool" where
  "preserved_or_zero old new = (case old of Val n \<Rightarrow> new = Val n | _ \<Rightarrow> new = Val 0)"

definition all_seven_present :: "checkpoint \<Rightarrow> bool" where
  "all_seven_present c =
     (is_syncing c \<noteq> Undefined \<and> last_sync_time c \<noteq> Undefined \<and>
      last_synced_order_id c \<noteq> Undefined \<and> last_synced_order_number c \<noteq> Undefined \<and>
      last_synced_order_created_at c \<noteq> Undefined \<and> total_orders_synced c \<noteq> Undefined \<and>
      last_sync_count c \<noteq> Undefined)"

text \<open>The rate-limit signal of the order source: a response with status 429.\<close>

definition rate_limit_signal :: "http_outcome \<Rightarrow> bool" where
  "rate_limit_signal out = (case out of Status code text body \<Rightarrow> code = 429 | _ \<Rightarrow> False)"

text \<open>What makes \<open>fetchWithRetry\<close> try again: a failure whose message contains \<open>429\<close>.\<close>

definition retry_triggered :: "error + response \<Rightarrow> bool" where
  "retry_triggered r = (case r of Inl e \<Rightarrow> str_includes (err_message e) ''429'' | Inr v \<Rightarrow> False)"

text \<open>What the \<open>k\<close>-th HTTP call after the state \<open>w\<close> does.\<close>

definition attempt_result :: "env \<Rightarrow> world \<Rightarrow> nat \<Rightarrow> error + response" where
  "attempt_result env w k = outcome_result (http env (length (http_log w) + k))"

definition returned :: "error + 'a \<Rightarrow> error + 'a option" where
  "returned r = (case r of Inl e \<Rightarrow> Inl e | Inr v \<Rightarrow> Inr (Some v))"

text \<open>Creation time of an order in milliseconds, for orders whose date is valid.\<close>

definition created_ms :: "env \<Rightarrow> order \<Rightarrow> int" where
  "created_ms env order = (case date_ms env (order_created_at order) of Some t \<Rightarrow> t | None \<Rightarrow> 0)"

text \<open>\<open>latest\<close> is one of the orders and none of them was created later.\<close>

definition newest_of :: "env \<Rightarrow> order list \<Rightarrow> order \<Rightarrow> bool" where
  "newest_of env os latest =
     (latest \<in> set os \<and> list_all (\<lambda>order. created_ms env order \<le> created_ms env latest) os)"

text \<open>The last storage call made before the state \<open>w\<close> did not fail.\<close>

definition last_storage_call_succeeded :: "env \<Rightarrow> world \<Rightarrow> bool" where
  "last_storage_call_succeeded env w = (db_fault env (db_ops w - 1) = None)"

text \<open>The run got past the already-syncing guard.\<close>

definition passed_guard :: "outcome \<Rightarrow> bool" where
  "passed_guard out = (out \<noteq> BadRequest \<and> out \<noteq> ShopNotFound \<and> out \<noteq> AlreadyInProgress)"

text \<open>The orders a run created: the identifiers the table gained.\<close>

definition created_in_run :: "world \<Rightarrow> world \<Rightarrow> string set" where
  "created_in_run w w' = dom (orders_table w') - dom (orders_table w)"

text \<open>The stored running total, read as the code reads it.\<close>

definition stored_total :: "world \<Rightarrow> string \<Rightarrow> int" where
  "stored_total w d = num_or_0 (checkpoint_field w d total_orders_synced)"

text \<open>\<open>t\<close> is the creation timestamp of an order of \<open>os\<close> and no order of \<open>os\<close> is newer.\<close>

definition max_created_at :: "env \<Rightarrow> order list \<Rightarrow> string \<Rightarrow> bool" where
  "max_created_at env os t =
     list_ex (\<lambda>latest. order_created_at latest = t \<and>
                list_all (\<lambda>order. created_ms env order \<le> created_ms env latest) os) os"

text \<open>The order with identifier \<open>k\<close> was not stored before the run and is stored after it.\<close>

definition newly_created :: "world \<Rightarrow> world \<Rightarrow> string \<Rightarrow> bool" where
  "newly_created w w' k = (orders_table w k = None \<and> orders_table w' k \<noteq> None)"


text \<open>The number of storage calls made between two states.\<close>

definition storage_calls :: "world \<Rightarrow> world \<Rightarrow> nat" where
  "storage_calls w w' = db_ops w' - db_ops w"



section \<open>Concrete data for the worked instances\<close>

definition attr :: "string \<Rightarrow> jsval \<Rightarrow> property" where
  "attr k v = \<lparr>prop_name = JStr k, prop_value = v\<rparr>"

definition item_with :: "property list jsopt \<Rightarrow> line_item" where
  "item_with props =
     \<lparr>item_id = ''7'', item_title = ''Shirt'', item_quantity = 1, item_price = ''10.00'',
      item_product_id = Null, item_variant_id = Null, properties = props\<rparr>"

definition order_with :: "string \<Rightarrow> string \<Rightarrow> line_item list jsopt \<Rightarrow> order" where
  "order_with i created items =
     \<lparr>order_id = i, order_name = CHR ''#'' # i, order_number = CHR ''#'' # i,
      order_created_at = created, order_total_price = ''10.00'', order_currency = ''USD'',
      order_email = Undefined, line_items = items\<rparr>"

definition tagged_order :: order where
  "tagged_order =
     order_with ''1001'' ''2024-01-01''
       (Val [item_with (Val [attr ''_sbb_try_on'' (JStr ''true''),
                             attr ''_sbb_session_id'' (JStr ''s1''),
                             attr ''_sbb_session_id'' (JStr ''''),
                             attr ''_sbb_session_id'' (JStr ''s2''),
                             attr ''_sbb_session_id'' (JStr ''s1'')])])"

definition upper_order :: order where
  "upper_order =
     order_with ''1002'' ''2024-01-02'' (Val [item_with (Val [attr ''_sbb_try_on'' (JStr ''TRUE'')])])"

definition boolean_order :: order where
  "boolean_order =
     order_with ''1003'' ''2024-01-03'' (Val [item_with (Val [attr ''_sbb_try_on'' (JBool True)])])"

definition bare_order :: order where
  "bare_order = order_with ''1004'' ''2024-01-04'' Undefined"

text \<open>
  An environment from a storage fault oracle and an HTTP oracle; the clock advances by a
  second a reading, four dates are valid and every price parses to 10.
\<close>

definition env_with :: "(nat \<Rightarrow> error option) \<Rightarrow> (nat \<Rightarrow> http_outcome) \<Rightarrow> env" where
  "env_with faults answers =
     \<lparr>db_fault = faults, http = answers, clock = (\<lambda>n. ''2024-02-01T00:00:0'' @ dec n),
      date_ms = (\<lambda>s. if s = ''2024-01-01'' then Some 1 else if s = ''2024-01-02'' then Some 2
                      else if s = ''2024-01-03'' then Some 3 else if s = ''2024-01-04'' then Some 4
                      else None),
      parseFloat = (\<lambda>s. 10), engine_order = (\<lambda>os. os)\<rparr>"

definition no_faults :: "nat \<Rightarrow> error option" where
  "no_faults n = None"

definition empty_page :: http_outcome where
  "empty_page = Json \<lparr>resp_errors = None, resp_orders = Some \<lparr>edges = [], hasNextPage = False\<rparr>\<rparr>"

definition shop_with :: "checkpoint option \<Rightarrow> shop" where
  "shop_with c =
     \<lparr>shop_domain = ''a.example'', shop_created_at = Val ''2023-12-01'',
      shop_updated_at = Val ''2023-12-01'', shop_order_sync = c\<rparr>"

definition world_with :: "checkpoint option \<Rightarrow> world" where
  "world_with c =
     \<lparr>shops_table = [''a.example'' \<mapsto> shop_with c], orders_table = Map.empty, db_ops = 0,
      http_log = [], clock_reads = 0, slept = []\<rparr>"

definition blank_id_checkpoint :: checkpoint where
  "blank_id_checkpoint =
     \<lparr>is_syncing = Val False, last_sync_time = Val ''2024-01-05'',
      last_synced_order_id = Val '''', last_synced_order_number = Val ''#1001'',
      last_synced_order_created_at = Val ''2024-01-01'', total_orders_synced = Val 1,
      last_sync_count = Val 1\<rparr>"

definition order_data_1001 :: order_data where
  "order_data_1001 =
     \<lparr>od_order_id = ''1001'', od_shop_domain = ''a.example'', od_order_number = ''#1001'',
      od_total_price = 10, od_currency = Val ''USD'', od_customer_email = Undefined,
      od_line_items = Val [], od_has_sbb_items = Val True, od_sbb_session_ids = Val [JStr ''s1''],
      od_created_at = Val ''2024-01-01''\<rparr>"

definition too_many_requests :: http_outcome where
  "too_many_requests = Status 429 ''Too Many Requests'' ''{}''"

definition throttled_once :: "nat \<Rightarrow> http_outcome" where
  "throttled_once n = (if n < 1 then too_many_requests else empty_page)"

definition a_session :: session where
  "a_session = \<lparr>session_shop = ''a.example'', session_accessToken = ''token''\<rparr>"

definition one_page_options :: fetch_options where
  "one_page_options = \<lparr>opt_limit = None, opt_created_at_min = Null, opt_max_pages = Some 1\<rparr>"

text \<open>A source that always reports more pages, one order a page.\<close>

definition endless_page :: http_outcome where
  "endless_page =
     Json \<lparr>resp_errors = None,
           resp_orders = Some
             \<lparr>edges = [\<lparr>edge_cursor = ''c'',
                        edge_node = \<lparr>node_id = ''gid://shopify/Order/1001'', node_name = ''#1001'',
                          node_createdAt = ''2024-01-01'', node_amount = ''10.00'',
                          node_currencyCode = ''USD'', node_lineItems = []\<rparr>\<rparr>],
              hasNextPage = True\<rparr>\<rparr>"

definition two_page_options :: fetch_options where
  "two_page_options = \<lparr>opt_limit = Some 1, opt_created_at_min = Null, opt_max_pages = Some 2\<rparr>"

definition syncing_checkpoint :: checkpoint where
  "syncing_checkpoint = blank_id_checkpoint\<lparr>is_syncing := Val True, last_synced_order_id := Val ''1001''\<rparr>"

definition a_request :: sync_request where
  "a_request = \<lparr>body_shop_domain = Val ''a.example'', body_session = Some a_session\<rparr>"

text \<open>
  A page of two orders, the last one: order 1001 carries the marker, order 1002, created a
  day later, does not.
\<close>

definition tagged_node :: gql_node where
  "tagged_node =
     \<lparr>node_id = ''gid://shopify/Order/1001'', node_name = ''#1001'',
      node_createdAt = ''2024-01-01'', node_amount = ''10.00'', node_currencyCode = ''USD'',
      node_lineItems =
        [\<lparr>gli_id = ''gid://shopify/LineItem/7'', gli_title = ''Shirt'', gli_quantity = 1,
          gli_amount = ''10.00'', gli_product = Null, gli_variant = Null,
          gli_customAttributes = [(JStr ''_sbb_try_on'', JStr ''true'')]\<rparr>]\<rparr>"

definition plain_node :: gql_node where
  "plain_node =
     \<lparr>node_id = ''gid://shopify/Order/1002'', node_name = ''#1002'',
      node_createdAt = ''2024-01-02'', node_amount = ''10.00'', node_currencyCode = ''USD'',
      node_lineItems = []\<rparr>"

definition two_orders_page :: http_outcome where
  "two_orders_page =
     Json \<lparr>resp_errors = None,
           resp_orders = Some
             \<lparr>edges = [\<lparr>edge_cursor = ''c1'', edge_node = tagged_node\<rparr>,
                       \<lparr>edge_cursor = ''c2'', edge_node = plain_node\<rparr>],
              hasNextPage = False\<rparr>\<rparr>"

definition fault_at :: "nat \<Rightarrow> nat \<Rightarrow> error option" where
  "fault_at k n = (if n = k then Some (Err ''ServiceUnavailable'' ''storage is down'') else None)"

definition network_down :: "nat \<Rightarrow> http_outcome" where
  "network_down n = Rejects (Err ''TypeError'' ''fetch failed'')"

text \<open>A server error that is not a rate limit and whose body mentions 429.\<close>

definition server_error_mentioning_429 :: http_outcome where
  "server_error_mentioning_429 = Status 500 ''Internal Server Error'' ''upstream said 429''"

definition failing_once :: "nat \<Rightarrow> http_outcome" where
  "failing_once n = (if n < 1 then server_error_mentioning_429 else empty_page)"

definition graphql_errors_page :: http_outcome where
  "graphql_errors_page = Json \<lparr>resp_errors = Some ''[Throttled 429]'', resp_orders = None\<rparr>"

text \<open>
  A shop that has synced before: order 1001 is stored, seven orders are counted. The
  source then answers with one page of four orders, in this order: 1001 again, 1003,
  1004 without the marker, and 1002.
\<close>

definition node_with :: "string \<Rightarrow> string \<Rightarrow> bool \<Rightarrow> gql_node" where
  "node_with i created tagged =
     \<lparr>node_id = ''gid://shopify/Order/'' @ i, node_name = CHR ''#'' # i,
      node_createdAt = created, node_amount = ''10.00'', node_currencyCode = ''USD'',
      node_lineItems =
        (if tagged
         then [\<lparr>gli_id = ''gid://shopify/LineItem/7'', gli_title = ''Shirt'', gli_quantity = 1,
                 gli_amount = ''10.00'', gli_product = Null, gli_variant = Null,
                 gli_customAttributes = [(JStr ''_sbb_try_on'', JStr ''true'')]\<rparr>]
         else [])\<rparr>"

definition four_orders_page :: http_outcome where
  "four_orders_page =
     Json \<lparr>resp_errors = None,
           resp_orders = Some
             \<lparr>edges = [\<lparr>edge_cursor = ''c1'', edge_node = node_with ''1001'' ''2024-01-01'' True\<rparr>,
                       \<lparr>edge_cursor = ''c2'', edge_node = node_with ''1003'' ''2024-01-03'' True\<rparr>,
                       \<lparr>edge_cursor = ''c3'', edge_node = node_with ''1004'' ''2024-01-04'' False\<rparr>,
                       \<lparr>edge_cursor = ''c4'', edge_node = node_with ''1002'' ''2024-01-02'' True\<rparr>],
              hasNextPage = False\<rparr>\<rparr>"

definition synced_checkpoint :: checkpoint where
  "synced_checkpoint =
     \<lparr>is_syncing = Val False, last_sync_time = Val ''2024-01-05'',
      last_synced_order_id = Val ''1001'', last_synced_order_number = Val ''#1001'',
      last_synced_order_created_at = Val ''2024-01-01'', total_orders_synced = Val 7,
      last_sync_count = Val 1\<rparr>"

definition stored_1001 :: imported_order where
  "stored_1001 =
     \<lparr>io_order_id = ''1001'', io_shop_domain = ''a.example'', io_order_number = ''#1001'',
      io_total_price = 10, io_currency = ''USD'', io_customer_email = Null, io_line_items = [],
      io_has_sbb_items = True, io_sbb_session_ids = [], io_created_at = ''2024-01-01'',
      io_synced_at = ''2024-01-05''\<rparr>"

definition synced_world :: world where
  "synced_world = (world_with (Some synced_checkpoint))\<lparr>orders_table := [''1001'' \<mapsto> stored_1001]\<rparr>"



section \<open>Properties of the order filter\<close>

lemma opt_some_iff: "opt_some p xs = (\<exists>ys y. xs = Val ys \<and> y \<in> set ys \<and> p y)"
  by (cases xs) (auto simp: list_ex_iff)

lemma has_sbb_item_iff: "has_sbb_item order = carries order (JStr ''_sbb_try_on'') (JStr ''true'')"
  unfolding has_sbb_item_def carries_def opt_some_iff is_try_on_def by blast

lemma set_foldl_set_add: "set (foldl set_add acc xs) = set acc \<union> set xs"
  by (induction xs arbitrary: acc) (auto simp: set_add_def)

lemma distinct_foldl_set_add: "distinct acc \<Longrightarrow> distinct (foldl set_add acc xs)"
  by (induction xs arbitrary: acc) (auto simp: set_add_def)

lemma set_spread_new_Set: "set (spread_new_Set xs) = set xs"
  by (simp add: spread_new_Set_def set_foldl_set_add)

lemma distinct_spread_new_Set: "distinct (spread_new_Set xs)"
  by (simp add: spread_new_Set_def distinct_foldl_set_add)

lemma set_opt_elems: "x \<in> set (opt_elems xs) = (\<exists>ys. xs = Val ys \<and> x \<in> set ys)"
  by (cases xs) auto

lemma set_pushed_session_ids:
  "set (pushed_session_ids order) = {v. carries order (JStr ''_sbb_session_id'') v \<and> truthy v}"
  unfolding pushed_session_ids_def carries_def
  by (auto simp: set_opt_elems is_session_id_def) blast

lemma no_attributes_not_carries: "no_attributes order \<Longrightarrow> \<not> carries order k v"
  unfolding no_attributes_def carries_def by fastforce

lemma extractSessionIds_empty: "no_attributes order \<Longrightarrow> extractSessionIds order = []"
proof -
  assume "no_attributes order"
  then have "set (pushed_session_ids order) = {}"
    unfolding set_pushed_session_ids using no_attributes_not_carries by blast
  then show ?thesis by (simp add: extractSessionIds_def spread_new_Set_def)
qed

text \<open>
  C9. \<open>filterSBBOrders\<close> keeps, in their order, exactly the orders in which some line item
  carries a custom attribute whose name is the string \<open>_sbb_try_on\<close> and whose value is
  the string \<open>true\<close>, compared strictly. \<open>extractSessionIds\<close> returns, without
  duplicates, the truthy values of the attributes named \<open>_sbb_session_id\<close>. Both are
  total: an order whose line items or attributes are missing or empty is not selected and
  yields the empty array.
\<close>

theorem filter_and_extract_exact:
  "filterSBBOrders orders =
     filter (\<lambda>order. carries order (JStr ''_sbb_try_on'') (JStr ''true'')) orders \<and>
   set (extractSessionIds order) =
     {v. carries order (JStr ''_sbb_session_id'') v \<and> truthy v} \<and>
   distinct (extractSessionIds order) \<and>
   (no_attributes order \<longrightarrow> filterSBBOrders [order] = [] \<and> extractSessionIds order = [])"
proof -
  have "has_sbb_item = (\<lambda>order. carries order (JStr ''_sbb_try_on'') (JStr ''true''))"
    by (rule ext) (rule has_sbb_item_iff)
  then have a: "filterSBBOrders orders =
      filter (\<lambda>order. carries order (JStr ''_sbb_try_on'') (JStr ''true'')) orders"
    by (simp add: filterSBBOrders_def)
  have b: "set (extractSessionIds order) =
      {v. carries order (JStr ''_sbb_session_id'') v \<and> truthy v}"
    by (simp add: extractSessionIds_def set_spread_new_Set set_pushed_session_ids)
  have c: "distinct (extractSessionIds order)"
    by (simp add: extractSessionIds_def distinct_spread_new_Set)
  have d: "no_attributes order \<longrightarrow> filterSBBOrders [order] = [] \<and> extractSessionIds order = []"
    using no_attributes_not_carries [of order]
    by (simp add: filterSBBOrders_def has_sbb_item_iff extractSessionIds_empty)
  from a b c d show ?thesis by blast
qed

theorem filter_and_extract_exact_witness:
  "no_attributes bare_order \<and>
   filterSBBOrders [bare_order] = [] \<and> extractSessionIds bare_order = [] \<and>
   filterSBBOrders [tagged_order, upper_order, boolean_order, bare_order] = [tagged_order] \<and>
   extractSessionIds tagged_order = [JStr ''s1'', JStr ''s2'']"
proof -
  have n: "no_attributes bare_order"
    by (simp add: no_attributes_def bare_order_def order_with_def)
  have f: "filterSBBOrders [tagged_order, upper_order, boolean_order, bare_order] = [tagged_order]"
    by (simp add: filterSBBOrders_def has_sbb_item_def is_try_on_def tagged_order_def
        upper_order_def boolean_order_def bare_order_def order_with_def item_with_def attr_def)
  have e: "extractSessionIds tagged_order = [JStr ''s1'', JStr ''s2'']"
    by (simp add: extractSessionIds_def pushed_session_ids_def spread_new_Set_def set_add_def
        is_session_id_def tagged_order_def order_with_def item_with_def attr_def)
  from n f e filter_and_extract_exact [of "[bare_order]" bare_order] show ?thesis
    by blast
qed

section \<open>Properties of the storage layer\<close>

lemma ShopModel_findOne_ok:
  "db_fault env (db_ops w) = None \<Longrightarrow>
   ShopModel_findOne env d w = (Inr (shops_table w d), w\<lparr>db_ops := Suc (db_ops w)\<rparr>)"
  by (simp add: ShopModel_findOne_def docClient_send_def GetCommand_shop_def)

lemma ShopModel_findOne_fault:
  "db_fault env (db_ops w) = Some e \<Longrightarrow>
   ShopModel_findOne env d w = (Inl e, w\<lparr>db_ops := Suc (db_ops w)\<rparr>)"
  by (simp add: ShopModel_findOne_def docClient_send_def)

lemma updateOrderSync_ok:
  "db_fault env (db_ops w) = None \<Longrightarrow>
   \<exists>s'. updateOrderSync env d c w =
          (Inr s', w\<lparr>clock_reads := Suc (clock_reads w), db_ops := Suc (db_ops w),
                      shops_table := (shops_table w)(d \<mapsto> s')\<rparr>) \<and>
        shop_order_sync s' = Some c \<and>
        (\<forall>s. shops_table w d = Some s \<longrightarrow>
           shop_created_at s' = shop_created_at s \<and> shop_domain s' = shop_domain s)"
  by (simp add: updateOrderSync_def now_def docClient_send_def UpdateCommand_order_sync_def Let_def
      split: option.split)

lemma updateOrderSync_fault:
  "db_fault env (db_ops w) = Some e \<Longrightarrow>
   updateOrderSync env d c w =
     (Inl e, w\<lparr>clock_reads := Suc (clock_reads w), db_ops := Suc (db_ops w)\<rparr>)"
  by (simp add: updateOrderSync_def now_def docClient_send_def)

lemma setSyncingFlag_ok:
  assumes "shops_table w d = Some s"
    and "db_fault env (db_ops w) = None" and "db_fault env (Suc (db_ops w)) = None"
  shows "setSyncingFlag env d flag w =
     (let s' = s\<lparr>shop_order_sync := Some
                 \<lparr>is_syncing = Val flag,
                  last_sync_time = or_s (order_sync_field s last_sync_time) Null,
                  last_synced_order_id = or_s (order_sync_field s last_synced_order_id) Null,
                  last_synced_order_number = or_s (order_sync_field s last_synced_order_number) Null,
                  last_synced_order_created_at =
                    or_s (order_sync_field s last_synced_order_created_at) Null,
                  total_orders_synced = or_n (order_sync_field s total_orders_synced) (Val 0),
                  last_sync_count = or_n (order_sync_field s last_sync_count) (Val 0)\<rparr>,
               shop_updated_at := Val (clock env (clock_reads w))\<rparr>
      in (Inr s', w\<lparr>db_ops := Suc (Suc (db_ops w)), clock_reads := Suc (clock_reads w),
                     shops_table := (shops_table w)(d \<mapsto> s')\<rparr>))"
  using assms
  by (simp add: setSyncingFlag_def ShopModel_findOne_ok now_def docClient_send_def
      UpdateCommand_order_sync_def Let_def)

lemma setSyncingFlag_missing:
  assumes "shops_table w d = None" and "db_fault env (db_ops w) = None"
  shows "setSyncingFlag env d flag w =
     (Inl (Err ''Error'' ''Shop not found''), w\<lparr>db_ops := Suc (db_ops w)\<rparr>)"
  using assms by (simp add: setSyncingFlag_def ShopModel_findOne_ok)

lemma setSyncingFlag_read_fault:
  assumes "db_fault env (db_ops w) = Some e"
  shows "setSyncingFlag env d flag w = (Inl e, w\<lparr>db_ops := Suc (db_ops w)\<rparr>)"
  using assms by (simp add: setSyncingFlag_def ShopModel_findOne_fault)

lemma setSyncingFlag_write_fault:
  assumes "shops_table w d = Some s"
    and "db_fault env (db_ops w) = None" and "db_fault env (Suc (db_ops w)) = Some e"
  shows "setSyncingFlag env d flag w =
     (Inl e, w\<lparr>db_ops := Suc (Suc (db_ops w)), clock_reads := Suc (clock_reads w)\<rparr>)"
  using assms
  by (simp add: setSyncingFlag_def ShopModel_findOne_ok now_def docClient_send_def Let_def)

lemma or_s_preserved: "preserved_or_null x (or_s x Null)"
  by (cases x) (auto simp: preserved_or_null_def or_s_def truthy_s_def)

lemma or_n_preserved: "preserved_or_zero x (or_n x (Val 0))"
  by (cases x) (auto simp: preserved_or_zero_def or_n_def truthy_n_def)

lemma or_s_defined: "or_s x Null \<noteq> Undefined"
  by (cases x) (auto simp: or_s_def truthy_s_def)

lemma or_n_defined: "or_n x (Val 0) \<noteq> Undefined"
  by (cases x) (auto simp: or_n_def truthy_n_def)

text \<open>
  C10, amended. When the shop exists and storage does not fail, \<open>setSyncingFlag\<close> replaces the
  stored checkpoint by one in which all seven fields are present, \<open>is_syncing\<close> is the given
  value, each of the four string fields keeps a stored non-empty string and is \<open>null\<close>
  otherwise (the empty string included), and each counter keeps a stored number and is 0
  otherwise; the shop's other attributes read by the sync are kept and the order table is
  untouched. When the shop does not exist the call throws \<open>Shop not found\<close> and writes
  nothing.
\<close>

theorem setSyncingFlag_rewrites_checkpoint:
  "(db_fault env (db_ops w) = None \<and> shops_table w d = None \<longrightarrow>
      fst (setSyncingFlag env d flag w) = Inl (Err ''Error'' ''Shop not found'') \<and>
      shops_table (snd (setSyncingFlag env d flag w)) = shops_table w) \<and>
   (db_fault env (db_ops w) = None \<and> db_fault env (Suc (db_ops w)) = None \<and>
    shops_table w d = Some s \<longrightarrow>
      (\<exists>s' c. fst (setSyncingFlag env d flag w) = Inr s' \<and>
         shops_table (snd (setSyncingFlag env d flag w)) = (shops_table w)(d \<mapsto> s') \<and>
         orders_table (snd (setSyncingFlag env d flag w)) = orders_table w \<and>
         shop_domain s' = shop_domain s \<and> shop_created_at s' = shop_created_at s \<and>
         shop_order_sync s' = Some c \<and> all_seven_present c \<and>
         is_syncing c = Val flag \<and>
         preserved_or_null (order_sync_field s last_sync_time) (last_sync_time c) \<and>
         preserved_or_null (order_sync_field s last_synced_order_id) (last_synced_order_id c) \<and>
         preserved_or_null (order_sync_field s last_synced_order_number)
           (last_synced_order_number c) \<and>
         preserved_or_null (order_sync_field s last_synced_order_created_at)
           (last_synced_order_created_at c) \<and>
         preserved_or_zero (order_sync_field s total_orders_synced) (total_orders_synced c) \<and>
         preserved_or_zero (order_sync_field s last_sync_count) (last_sync_count c)))"
proof (intro conjI impI)
  assume "db_fault env (db_ops w) = None \<and> shops_table w d = None"
  then show "fst (setSyncingFlag env d flag w) = Inl (Err ''Error'' ''Shop not found'')"
    and "shops_table (snd (setSyncingFlag env d flag w)) = shops_table w"
    by (simp_all add: setSyncingFlag_missing)
next
  assume "db_fault env (db_ops w) = None \<and> db_fault env (Suc (db_ops w)) = None \<and>
    shops_table w d = Some s"
  then show "\<exists>s' c. fst (setSyncingFlag env d flag w) = Inr s' \<and>
         shops_table (snd (setSyncingFlag env d flag w)) = (shops_table w)(d \<mapsto> s') \<and>
         orders_table (snd (setSyncingFlag env d flag w)) = orders_table w \<and>
         shop_domain s' = shop_domain s \<and> shop_created_at s' = shop_created_at s \<and>
         shop_order_sync s' = Some c \<and> all_seven_present c \<and>
         is_syncing c = Val flag \<and>
         preserved_or_null (order_sync_field s last_sync_time) (last_sync_time c) \<and>
         preserved_or_null (order_sync_field s last_synced_order_id) (last_synced_order_id c) \<and>
         preserved_or_null (order_sync_field s last_synced_order_number)
           (last_synced_order_number c) \<and>
         preserved_or_null (order_sync_field s last_synced_order_created_at)
           (last_synced_order_created_at c) \<and>
         preserved_or_zero (order_sync_field s total_orders_synced) (total_orders_synced c) \<and>
         preserved_or_zero (order_sync_field s last_sync_count) (last_sync_count c)"
    by (simp add: setSyncingFlag_ok Let_def all_seven_present_def or_s_preserved or_n_preserved
        or_s_defined or_n_defined)
qed

lemma world_with_shop:
  "shops_table (world_with c) ''a.example'' = Some (shop_with c) \<and> db_ops (world_with c) = 0"
  by (simp add: world_with_def)

theorem setSyncingFlag_rewrites_checkpoint_witness:
  "db_fault (env_with no_faults (\<lambda>n. empty_page)) (db_ops (world_with (Some blank_id_checkpoint))) = None \<and>
   shops_table (world_with (Some blank_id_checkpoint)) ''a.example'' =
     Some (shop_with (Some blank_id_checkpoint)) \<and>
   checkpoint_field
     (snd (setSyncingFlag (env_with no_faults (\<lambda>n. empty_page)) ''a.example'' True
        (world_with (Some blank_id_checkpoint)))) ''a.example'' is_syncing = Val True \<and>
   checkpoint_field
     (snd (setSyncingFlag (env_with no_faults (\<lambda>n. empty_page)) ''a.example'' True
        (world_with (Some blank_id_checkpoint)))) ''a.example'' last_synced_order_number =
     Val ''#1001''"
proof -
  let ?E = "env_with no_faults (\<lambda>n. empty_page)"
  let ?W = "world_with (Some blank_id_checkpoint)"
  let ?S = "shop_with (Some blank_id_checkpoint)"
  have h: "db_fault ?E (db_ops ?W) = None \<and> db_fault ?E (Suc (db_ops ?W)) = None \<and>
      shops_table ?W ''a.example'' = Some ?S"
    by (simp add: env_with_def no_faults_def world_with_shop)
  with setSyncingFlag_rewrites_checkpoint [of ?E ?W "''a.example''" True ?S]
  obtain s' c where r:
    "shops_table (snd (setSyncingFlag ?E ''a.example'' True ?W)) =
       (shops_table ?W)(''a.example'' \<mapsto> s')"
    "shop_order_sync s' = Some c" "is_syncing c = Val True"
    "preserved_or_null (order_sync_field ?S last_synced_order_number) (last_synced_order_number c)"
    by blast
  have "order_sync_field ?S last_synced_order_number = Val ''#1001''"
    by (simp add: order_sync_field_def shop_with_def blank_id_checkpoint_def)
  with r(4) have "last_synced_order_number c = Val ''#1001''"
    by (simp add: preserved_or_null_def)
  with r h show ?thesis
    by (simp add: checkpoint_field_def order_sync_field_def)
qed

text \<open>
  C10 as stated fails: a stored \<open>last_synced_order_id\<close> that is the empty string is
  neither kept nor missing, and the call replaces it by \<open>null\<close>.
\<close>

theorem setSyncingFlag_blank_id_counterexample:
  "\<not> kept_or_defaulted
       (checkpoint_field (world_with (Some blank_id_checkpoint)) ''a.example'' last_synced_order_id)
       Null
       (checkpoint_field
          (snd (setSyncingFlag (env_with no_faults (\<lambda>n. empty_page)) ''a.example'' True
             (world_with (Some blank_id_checkpoint)))) ''a.example'' last_synced_order_id)"
proof -
  let ?E = "env_with no_faults (\<lambda>n. empty_page)"
  let ?W = "world_with (Some blank_id_checkpoint)"
  have "db_fault ?E (db_ops ?W) = None" "db_fault ?E (Suc (db_ops ?W)) = None"
    by (simp_all add: env_with_def no_faults_def)
  from setSyncingFlag_ok [OF conjunct1 [OF world_with_shop] this]
  show ?thesis
    by (simp add: Let_def checkpoint_field_def order_sync_field_def world_with_def shop_with_def
        blank_id_checkpoint_def kept_or_defaulted_def or_s_def truthy_s_def)
qed


section \<open>Properties of the order store\<close>

lemma OrderModel_create_new:
  assumes "orders_table w (od_order_id a) = None" and "db_fault env (db_ops w) = None"
  shows "\<exists>rec w'. OrderModel_create env a w = (Inr (Some rec), w') \<and>
           io_order_id rec = od_order_id a \<and> io_total_price rec = od_total_price a \<and>
           orders_table w' = (orders_table w)(od_order_id a \<mapsto> rec) \<and>
           shops_table w' = shops_table w \<and> db_ops w' = Suc (db_ops w) \<and>
           http_log w' = http_log w \<and> slept w' = slept w"
  using assms
  by (simp add: OrderModel_create_def now_def docClient_send_def PutCommand_order_def Let_def)

lemma OrderModel_create_duplicate:
  assumes "orders_table w (od_order_id a) = Some old" and "db_fault env (db_ops w) = None"
  shows "\<exists>w'. OrderModel_create env a w = (Inr None, w') \<and>
           orders_table w' = orders_table w \<and>
           shops_table w' = shops_table w \<and> db_ops w' = Suc (db_ops w) \<and>
           http_log w' = http_log w \<and> slept w' = slept w"
  using assms
  by (simp add: OrderModel_create_def now_def docClient_send_def PutCommand_order_def Let_def)

lemma OrderModel_create_fault:
  assumes "db_fault env (db_ops w) = Some e"
  shows "\<exists>w'. OrderModel_create env a w =
           (if err_name e = ''ConditionalCheckFailedException'' then Inr None else Inl e, w') \<and>
           orders_table w' = orders_table w \<and>
           shops_table w' = shops_table w \<and> db_ops w' = Suc (db_ops w) \<and>
           http_log w' = http_log w \<and> slept w' = slept w"
  using assms
  by (simp add: OrderModel_create_def now_def docClient_send_def Let_def)

text \<open>
  C1. Creating an order whose identifier is not stored, and then creating an order with the
  same identifier again, both without a storage failure: the first call returns the record
  it stored, the second returns \<open>null\<close>, and the table holds, under that identifier, the
  record of the first call and nothing else new. A storage failure whose name is not
  \<open>ConditionalCheckFailedException\<close> is thrown, and nothing is written.
\<close>

theorem create_twice_stores_once:
  "(orders_table w (od_order_id a) = None \<and> od_order_id b = od_order_id a \<and>
    db_fault env (db_ops w) = None \<and> db_fault env (Suc (db_ops w)) = None \<longrightarrow>
      (\<exists>rec. fst (OrderModel_create env a w) = Inr (Some rec) \<and>
         io_order_id rec = od_order_id a \<and>
         orders_table (snd (OrderModel_create env a w)) =
           (orders_table w)(od_order_id a \<mapsto> rec) \<and>
         fst (OrderModel_create env b (snd (OrderModel_create env a w))) = Inr None \<and>
         orders_table (snd (OrderModel_create env b (snd (OrderModel_create env a w)))) =
           (orders_table w)(od_order_id a \<mapsto> rec))) \<and>
   (db_fault env (db_ops w) = Some e \<and> err_name e \<noteq> ''ConditionalCheckFailedException'' \<longrightarrow>
      fst (OrderModel_create env a w) = Inl e \<and>
      orders_table (snd (OrderModel_create env a w)) = orders_table w)"
proof (intro conjI impI)
  assume h: "orders_table w (od_order_id a) = None \<and> od_order_id b = od_order_id a \<and>
    db_fault env (db_ops w) = None \<and> db_fault env (Suc (db_ops w)) = None"
  then obtain rec w1 where 1: "OrderModel_create env a w = (Inr (Some rec), w1)"
    "io_order_id rec = od_order_id a"
    "orders_table w1 = (orders_table w)(od_order_id a \<mapsto> rec)" "db_ops w1 = Suc (db_ops w)"
    using OrderModel_create_new [of w a env] by blast
  from 1 h have "orders_table w1 (od_order_id b) = Some rec" "db_fault env (db_ops w1) = None"
    by simp_all
  then obtain w2 where 2: "OrderModel_create env b w1 = (Inr None, w2)"
    "orders_table w2 = orders_table w1"
    using OrderModel_create_duplicate [of w1 b rec env] by blast
  from 1 2 show "\<exists>rec. fst (OrderModel_create env a w) = Inr (Some rec) \<and>
         io_order_id rec = od_order_id a \<and>
         orders_table (snd (OrderModel_create env a w)) =
           (orders_table w)(od_order_id a \<mapsto> rec) \<and>
         fst (OrderModel_create env b (snd (OrderModel_create env a w))) = Inr None \<and>
         orders_table (snd (OrderModel_create env b (snd (OrderModel_create env a w)))) =
           (orders_table w)(od_order_id a \<mapsto> rec)"
    by simp
next
  assume "db_fault env (db_ops w) = Some e \<and> err_name e \<noteq> ''ConditionalCheckFailedException''"
  then show "fst (OrderModel_create env a w) = Inl e"
    and "orders_table (snd (OrderModel_create env a w)) = orders_table w"
    using OrderModel_create_fault [of env w e a] by auto
qed

theorem create_twice_stores_once_witness:
  "orders_table (world_with None) (od_order_id order_data_1001) = None \<and>
   db_fault (env_with no_faults (\<lambda>n. empty_page)) (db_ops (world_with None)) = None \<and>
   fst (OrderModel_create (env_with no_faults (\<lambda>n. empty_page))
          (order_data_1001\<lparr>od_total_price := 99\<rparr>)
          (snd (OrderModel_create (env_with no_faults (\<lambda>n. empty_page)) order_data_1001
             (world_with None)))) = Inr None \<and>
   map_option io_total_price
     (orders_table
        (snd (OrderModel_create (env_with no_faults (\<lambda>n. empty_page))
           (order_data_1001\<lparr>od_total_price := 99\<rparr>)
           (snd (OrderModel_create (env_with no_faults (\<lambda>n. empty_page)) order_data_1001
              (world_with None))))) ''1001'') = Some 10"
proof -
  let ?E = "env_with no_faults (\<lambda>n. empty_page)"
  let ?W = "world_with None"
  let ?b = "order_data_1001\<lparr>od_total_price := 99\<rparr>"
  have h: "orders_table ?W (od_order_id order_data_1001) = None \<and>
      od_order_id ?b = od_order_id order_data_1001 \<and>
      db_fault ?E (db_ops ?W) = None \<and> db_fault ?E (Suc (db_ops ?W)) = None"
    by (simp add: world_with_def env_with_def no_faults_def)
  with create_twice_stores_once [of ?W order_data_1001 ?b ?E]
  obtain rec where r: "fst (OrderModel_create ?E order_data_1001 ?W) = Inr (Some rec)"
    "fst (OrderModel_create ?E ?b (snd (OrderModel_create ?E order_data_1001 ?W))) = Inr None"
    "orders_table (snd (OrderModel_create ?E ?b (snd (OrderModel_create ?E order_data_1001 ?W)))) =
       (orders_table ?W)(od_order_id order_data_1001 \<mapsto> rec)"
    by blast
  from OrderModel_create_new [of ?W order_data_1001 ?E] h r(1)
  have "io_total_price rec = 10"
    by (auto simp: order_data_1001_def)
  with r h show ?thesis
    by (simp add: order_data_1001_def)
qed


section \<open>Properties of the order fetcher\<close>

lemma retry_loop_last:
  "retry_loop (http_call env s q) 3 (Suc (Suc (Suc 0))) w =
     (returned (attempt_result env w 0), w\<lparr>http_log := http_log w @ [request_of s q]\<rparr>)"
  by (subst retry_loop.simps)
     (simp add: http_call_def attempt_result_def returned_def split: sum.split)

lemma retry_loop_second:
  "retry_loop (http_call env s q) 3 (Suc (Suc 0)) w =
     (if retry_triggered (attempt_result env w 0)
      then (returned (attempt_result env w 1),
            w\<lparr>http_log := http_log w @ [request_of s q, request_of s q],
               slept := slept w @ [2000]\<rparr>)
      else (returned (attempt_result env w 0), w\<lparr>http_log := http_log w @ [request_of s q]\<rparr>))"
  by (subst retry_loop.simps)
     (simp add: http_call_def attempt_result_def returned_def retry_triggered_def sleep_def
       retry_loop_last split: sum.split)

lemma fetchWithRetry_three:
  "fetchWithRetry (http_call env s q) 3 w =
     (if \<not> retry_triggered (attempt_result env w 0)
      then (returned (attempt_result env w 0), w\<lparr>http_log := http_log w @ [request_of s q]\<rparr>)
      else if \<not> retry_triggered (attempt_result env w 1)
      then (returned (attempt_result env w 1),
            w\<lparr>http_log := http_log w @ [request_of s q, request_of s q],
               slept := slept w @ [2000]\<rparr>)
      else (returned (attempt_result env w 2),
            w\<lparr>http_log := http_log w @ [request_of s q, request_of s q, request_of s q],
               slept := slept w @ [2000, 2000]\<rparr>))"
  unfolding fetchWithRetry_def
  by (subst retry_loop.simps)
     (simp add: http_call_def attempt_result_def returned_def retry_triggered_def sleep_def
       retry_loop_second split: sum.split)

lemma fetchWithRetry_effect:
  assumes "fetchWithRetry (http_call env s q) 3 w = (x, y)"
  shows "shops_table y = shops_table w \<and> orders_table y = orders_table w \<and>
         db_ops y = db_ops w \<and> clock_reads y = clock_reads w"
    and "length (http_log w) < length (http_log y)"
    and "length (http_log y) \<le> length (http_log w) + 3"
    and "(\<forall>k. \<not> retry_triggered (outcome_result (http env k))) \<longrightarrow>
           length (http_log y) = Suc (length (http_log w)) \<and> slept y = slept w"
    and "\<forall>r. x = Inr (Some r) \<longrightarrow> (\<exists>k. http env k = Json r)"
    and "x \<noteq> Inr None"
    and "set (http_log y) = set (http_log w) \<union> {request_of s q}"
  using assms unfolding fetchWithRetry_three
  by (auto simp: returned_def attempt_result_def outcome_result_def
      split: if_splits sum.splits http_outcome.splits)

lemma fetch_pages_stop:
  "\<not> (hn \<and> page \<le> mp) \<Longrightarrow> fetch_pages env s limit cmin mp acc page hn cur w = (Inr acc, w)"
  by (subst fetch_pages.simps) (simp only: if_not_P if_False)

lemma fetch_pages_step:
  "hn \<and> page \<le> mp \<Longrightarrow>
   fetchWithRetry (http_call env s (buildOrdersQuery limit cur cmin)) 3 w = (x, y) \<Longrightarrow>
   fetch_pages env s limit cmin mp acc page hn cur w =
     (case x of
        Inl e \<Rightarrow> (Inl e, y)
      | Inr None \<Rightarrow> (Inl (Err ''TypeError'' ''Cannot read properties of undefined''), y)
      | Inr (Some r) \<Rightarrow>
          (case resp_errors r of
             Some js \<Rightarrow> (Inl (Err ''Error'' (''GraphQL errors: '' @ js)), y)
           | None \<Rightarrow>
              (case resp_orders r of
                 None \<Rightarrow> (Inl (Err ''Error'' ''No orders data in response''), y)
               | Some od \<Rightarrow>
                   fetch_pages env s limit cmin mp
                     (acc @ map (\<lambda>e. transformGraphQLOrder (edge_node e)) (edges od))
                     (page + 1)
                     (hasNextPage od)
                     (if hasNextPage od \<and> edges od \<noteq> []
                      then Val (edge_cursor (last (edges od))) else cur)
                     (if hasNextPage od then sleep 500 y else y))))"
  by (subst fetch_pages.simps) simp

text \<open>
  An induction principle for a run of the page loop: it stops without a request, or a page
  request fails, or a page is appended and the loop goes on from the next state.
\<close>

lemma fetch_pages_run_induct [consumes 1, case_names stop fail page]:
  assumes run: "fetch_pages env s limit cmin mp acc page hn cur w = (res, w')"
    and stop: "\<And>acc page hn cur w. \<not> (hn \<and> page \<le> mp) \<Longrightarrow> Q acc page hn cur w (Inr acc) w"
    and fail: "\<And>acc page hn cur w x y e.
        hn \<Longrightarrow> page \<le> mp \<Longrightarrow>
        fetchWithRetry (http_call env s (buildOrdersQuery limit cur cmin)) 3 w = (x, y) \<Longrightarrow>
        Q acc page hn cur w (Inl e) y"
    and page: "\<And>acc page hn cur w r y od.
        hn \<Longrightarrow> page \<le> mp \<Longrightarrow>
        fetchWithRetry (http_call env s (buildOrdersQuery limit cur cmin)) 3 w = (Inr (Some r), y) \<Longrightarrow>
        resp_errors r = None \<Longrightarrow> resp_orders r = Some od \<Longrightarrow>
        Q (acc @ map (\<lambda>e. transformGraphQLOrder (edge_node e)) (edges od)) (page + 1)
          (hasNextPage od)
          (if hasNextPage od \<and> edges od \<noteq> [] then Val (edge_cursor (last (edges od))) else cur)
          (if hasNextPage od then sleep 500 y else y) res w' \<Longrightarrow>
        Q acc page hn cur w res w'"
  shows "Q acc page hn cur w res w'"
  using run
proof (induction "Suc mp - page" arbitrary: acc page hn cur w)
  case 0
  then have no: "\<not> (hn \<and> page \<le> mp)" by simp
  have "Q acc page hn cur w (Inr acc) w" by (rule stop) (rule no)
  with "0.prems" no show ?case by (simp add: fetch_pages_stop)
next
  case (Suc n)
  show ?case
  proof (cases "hn \<and> page \<le> mp")
    case False
    have "Q acc page hn cur w (Inr acc) w" by (rule stop) (rule False)
    with Suc.prems False show ?thesis by (simp add: fetch_pages_stop)
  next
    case True
    then have hn: hn and le: "page \<le> mp" by simp_all
    obtain x y where f: "fetchWithRetry (http_call env s (buildOrdersQuery limit cur cmin)) 3 w = (x, y)"
      by (cases "fetchWithRetry (http_call env s (buildOrdersQuery limit cur cmin)) 3 w")
    note step = Suc.prems [unfolded fetch_pages_step [OF True f]]
    note bad = fail [OF hn le f]
    show ?thesis
    proof (cases x)
      case (Inl e)
      with step bad show ?thesis by auto
    next
      case (Inr b)
      show ?thesis
      proof (cases b)
        case None
        with Inr step bad show ?thesis by auto
      next
        case (Some r)
        show ?thesis
        proof (cases "resp_errors r")
          case (Some js)
          with Inr \<open>b = Some r\<close> step bad show ?thesis by auto
        next
          case None
          show ?thesis
          proof (cases "resp_orders r")
            case None
            with Inr \<open>b = Some r\<close> \<open>resp_errors r = None\<close> step bad show ?thesis by auto
          next
            case (Some od)
            from Inr \<open>b = Some r\<close> \<open>resp_errors r = None\<close> Some step
            have next_run: "fetch_pages env s limit cmin mp
                     (acc @ map (\<lambda>e. transformGraphQLOrder (edge_node e)) (edges od))
                     (page + 1) (hasNextPage od)
                     (if hasNextPage od \<and> edges od \<noteq> []
                      then Val (edge_cursor (last (edges od))) else cur)
                     (if hasNextPage od then sleep 500 y else y) = (res, w')"
              by simp
            from Suc.hyps(2) le have "n = Suc mp - (page + 1)" by simp
            from Suc.hyps(1) [OF this next_run]
            have "Q (acc @ map (\<lambda>e. transformGraphQLOrder (edge_node e)) (edges od)) (page + 1)
                (hasNextPage od)
                (if hasNextPage od \<and> edges od \<noteq> [] then Val (edge_cursor (last (edges od)))
                 else cur)
                (if hasNextPage od then sleep 500 y else y) res w'" .
            from page [OF hn le _ \<open>resp_errors r = None\<close> Some this] f Inr \<open>b = Some r\<close>
            show ?thesis by simp
          qed
        qed
      qed
    qed
  qed
qed

lemma fetch_pages_frame:
  assumes "fetch_pages env s limit cmin mp acc page hn cur w = (res, w')"
  shows "shops_table w' = shops_table w \<and> orders_table w' = orders_table w \<and>
         db_ops w' = db_ops w \<and> clock_reads w' = clock_reads w"
  using assms
proof (induction rule: fetch_pages_run_induct)
  case stop
  show ?case by simp
next
  case (fail acc page hn cur w x y e)
  from fetchWithRetry_effect(1) [OF fail(3)] show ?case .
next
  case (page acc page hn cur w r y od)
  from fetchWithRetry_effect(1) [OF page(3)] page(6) show ?case
    by (simp add: sleep_def split: if_splits)
qed

lemma fetch_pages_calls:
  assumes "fetch_pages env s limit cmin mp acc page hn cur w = (res, w')"
  shows "length (http_log w') \<le> length (http_log w) + 3 * (Suc mp - page)"
  using assms
proof (induction rule: fetch_pages_run_induct)
  case stop
  show ?case by simp
next
  case (fail acc page hn cur w x y e)
  from fetchWithRetry_effect(3) [OF fail(3)] fail(2) show ?case by simp
next
  case (page acc page hn cur w r y od)
  from fetchWithRetry_effect(3) [OF page(3)] page(2) page(6) show ?case
    by (simp add: sleep_def split: if_splits)
qed

lemma fetch_pages_calls_unthrottled:
  assumes "fetch_pages env s limit cmin mp acc page hn cur w = (res, w')"
    and "\<forall>k. \<not> retry_triggered (outcome_result (http env k))"
  shows "length (http_log w') \<le> length (http_log w) + (Suc mp - page)"
  using assms
proof (induction rule: fetch_pages_run_induct)
  case stop
  show ?case by simp
next
  case (fail acc page hn cur w x y e)
  from fetchWithRetry_effect(4) [OF fail(3)] fail(2) fail(4) show ?case by simp
next
  case (page acc page hn cur w r y od)
  from fetchWithRetry_effect(4) [OF page(3)] page(2) page(6) page(7) show ?case
    by (simp add: sleep_def split: if_splits)
qed

lemma fetch_pages_orders:
  assumes "fetch_pages env s limit cmin mp acc page hn cur w = (res, w')"
    and "\<forall>k r od. http env k = Json r \<and> resp_orders r = Some od \<longrightarrow> length (edges od) \<le> limit"
  shows "\<forall>found. res = Inr found \<longrightarrow> length found \<le> length acc + limit * (Suc mp - page)"
  using assms
proof (induction rule: fetch_pages_run_induct)
  case stop
  show ?case by simp
next
  case (fail acc page hn cur w x y e)
  show ?case by simp
next
  case (page acc page hn cur w r y od)
  from fetchWithRetry_effect(5) [OF page(3)] obtain k where "http env k = Json r" by blast
  with page(5) page(7) have le: "length (edges od) \<le> limit" by blast
  from page(2) have eq: "Suc mp - page = Suc (Suc mp - (page + 1))" by simp
  have "limit * (Suc mp - page) = limit + limit * (Suc mp - (page + 1))"
    unfolding eq by simp
  with page(6) [OF page(7)] le show ?case by auto
qed

lemma fetch_pages_graphql_errors:
  assumes "hn" and "page \<le> mp"
    and "http env (length (http_log w)) = Json r" and "resp_errors r = Some js"
  shows "fetch_pages env s limit cmin mp acc page hn cur w =
     (Inl (Err ''Error'' (''GraphQL errors: '' @ js)),
      w\<lparr>http_log := http_log w @ [request_of s (buildOrdersQuery limit cur cmin)]\<rparr>)"
proof -
  from assms(3) have a: "attempt_result env w 0 = Inr r"
    by (simp add: attempt_result_def outcome_result_def)
  then have "fetchWithRetry (http_call env s (buildOrdersQuery limit cur cmin)) 3 w =
      (Inr (Some r), w\<lparr>http_log := http_log w @ [request_of s (buildOrdersQuery limit cur cmin)]\<rparr>)"
    by (simp add: fetchWithRetry_three retry_triggered_def returned_def)
  from fetch_pages_step [OF _ this] assms show ?thesis by simp
qed

lemma str_includes_self: "str_includes (n @ zs) n"
proof (cases "n @ zs")
  case Nil
  then show ?thesis by simp
next
  case (Cons c cs)
  have "prefix n (n @ zs)" by simp
  with Cons show ?thesis by simp
qed

lemma str_includes_append_right: "str_includes ys n \<Longrightarrow> str_includes (xs @ ys) n"
  by (induction xs) auto

lemma dec_429: "dec 429 = ''429''"
  by (simp add: dec.simps digit_def)

lemma status_429_triggers_retry:
  "rate_limit_signal out \<Longrightarrow> retry_triggered (outcome_result out)"
proof (cases out)
  case (Status code reason body)
  assume "rate_limit_signal out"
  with Status have "code = 429" by (simp add: rate_limit_signal_def)
  with Status show ?thesis
    by (simp add: outcome_result_def retry_triggered_def dec_429 str_includes_append_right
        str_includes_self)
qed (simp_all add: rate_limit_signal_def)

lemma body_429_triggers_retry:
  "str_includes body ''429'' \<Longrightarrow> retry_triggered (outcome_result (Status code reason body))"
  by (simp add: outcome_result_def retry_triggered_def str_includes_append_right)

text \<open>
  C5. One call of \<open>fetchWithRetry\<close> with its three attempts. If the first HTTP call does
  not trigger a retry, its result (the response, or the error) is the result and nothing
  else happens. If it does, the fetcher sleeps 2000 ms and calls again; the same holds of
  the second call. The result of the third call is final whatever it is, with no sleep
  after it. A response that parses and carries GraphQL errors makes \<open>fetchOrders\<close> fail
  after that single call: no sleep, no second call. What triggers a retry is a failure
  whose message contains \<open>429\<close>: every response with status 429 does, and so does a response
  with any other status whose body contains \<open>429\<close>, which is no rate-limit signal and is
  retried all the same.
\<close>

theorem fetchWithRetry_policy:
  "fetchWithRetry (http_call env s q) 3 w =
     (if \<not> retry_triggered (attempt_result env w 0)
      then (returned (attempt_result env w 0), w\<lparr>http_log := http_log w @ [request_of s q]\<rparr>)
      else if \<not> retry_triggered (attempt_result env w 1)
      then (returned (attempt_result env w 1),
            w\<lparr>http_log := http_log w @ [request_of s q, request_of s q],
               slept := slept w @ [2000]\<rparr>)
      else (returned (attempt_result env w 2),
            w\<lparr>http_log := http_log w @ [request_of s q, request_of s q, request_of s q],
               slept := slept w @ [2000, 2000]\<rparr>)) \<and>
   (hn \<and> page \<le> mp \<and> http env (length (http_log w)) = Json r \<and> resp_errors r = Some js \<longrightarrow>
      fetch_pages env s limit cmin mp acc page hn cur w =
        (Inl (Err ''Error'' (''GraphQL errors: '' @ js)),
         w\<lparr>http_log := http_log w @ [request_of s (buildOrdersQuery limit cur cmin)]\<rparr>)) \<and>
   (rate_limit_signal out \<longrightarrow> retry_triggered (outcome_result out)) \<and>
   (str_includes body ''429'' \<longrightarrow>
      retry_triggered (outcome_result (Status code reason body)) \<and>
      (code \<noteq> 429 \<longrightarrow> \<not> rate_limit_signal (Status code reason body)))"
  using fetchWithRetry_three [of env s q w]
    fetch_pages_graphql_errors [of hn page mp env w r js s limit cmin acc cur]
    status_429_triggers_retry [of out] body_429_triggers_retry [of body code reason]
  by (simp add: rate_limit_signal_def)

lemma too_many_requests_triggers_retry: "retry_triggered (outcome_result too_many_requests)"
  by (simp add: too_many_requests_def outcome_result_def retry_triggered_def dec_429)

lemma empty_page_no_retry: "\<not> retry_triggered (outcome_result empty_page)"
  by (simp add: empty_page_def outcome_result_def retry_triggered_def)

text \<open>
  A status 500 whose body mentions 429 is answered by a sleep and a second request; a
  page with GraphQL errors by a failure after one request.
\<close>

theorem fetchWithRetry_policy_witness:
  "\<not> rate_limit_signal server_error_mentioning_429 \<and>
   retry_triggered (outcome_result server_error_mentioning_429) \<and>
   fst (fetchWithRetry
          (http_call (env_with no_faults failing_once) a_session (buildOrdersQuery 250 Null Null))
          3 (world_with None)) =
     Inr (Some \<lparr>resp_errors = None, resp_orders = Some \<lparr>edges = [], hasNextPage = False\<rparr>\<rparr>) \<and>
   slept (snd (fetchWithRetry
          (http_call (env_with no_faults failing_once) a_session (buildOrdersQuery 250 Null Null))
          3 (world_with None))) = [2000] \<and>
   length (http_log (snd (fetchWithRetry
          (http_call (env_with no_faults failing_once) a_session (buildOrdersQuery 250 Null Null))
          3 (world_with None)))) = 2 \<and>
   fetch_pages (env_with no_faults (\<lambda>n. graphql_errors_page)) a_session 250 Null 10 [] 1 True Null
     (world_with None) =
     (Inl (Err ''Error'' ''GraphQL errors: [Throttled 429]''),
      (world_with None)\<lparr>http_log := [request_of a_session (buildOrdersQuery 250 Null Null)]\<rparr>)"
proof -
  let ?E = "env_with no_faults failing_once"
  let ?G = "env_with no_faults (\<lambda>n. graphql_errors_page)"
  let ?q = "buildOrdersQuery 250 Null Null"
  let ?R = "fetchWithRetry (http_call ?E a_session ?q) 3 (world_with None)"
  note policy = fetchWithRetry_policy
    [of ?E a_session ?q "world_with None" True 1 10
      "\<lparr>resp_errors = Some ''[Throttled 429]'', resp_orders = None\<rparr>" "''[Throttled 429]''"
      250 Null "[]" Null server_error_mentioning_429 "''upstream said 429''" 500
      "''Internal Server Error''"]
  have b: "str_includes ''upstream said 429'' ''429''" by code_simp
  from policy b have t: "retry_triggered (outcome_result server_error_mentioning_429)"
    and n: "\<not> rate_limit_signal server_error_mentioning_429"
    by (simp_all add: server_error_mentioning_429_def)
  have 0: "attempt_result ?E (world_with None) 0 = outcome_result server_error_mentioning_429"
    and 1: "attempt_result ?E (world_with None) (Suc 0) = outcome_result empty_page"
    by (simp_all add: attempt_result_def env_with_def failing_once_def world_with_def)
  have 3: "returned (outcome_result empty_page) =
      Inr (Some \<lparr>resp_errors = None, resp_orders = Some \<lparr>edges = [], hasNextPage = False\<rparr>\<rparr>)"
    by (simp add: returned_def outcome_result_def empty_page_def)
  from conjunct1 [OF policy]
  have r: "?R =
      (Inr (Some \<lparr>resp_errors = None, resp_orders = Some \<lparr>edges = [], hasNextPage = False\<rparr>\<rparr>),
       (world_with None)
         \<lparr>http_log := http_log (world_with None) @ [request_of a_session ?q, request_of a_session ?q],
          slept := slept (world_with None) @ [2000]\<rparr>)"
    by (simp only: 0 1 3 One_nat_def t empty_page_no_retry not_True_eq_False not_False_eq_True
        if_False if_True)
  have w: "http_log (world_with None) = []" "slept (world_with None) = []"
    by (simp_all add: world_with_def)
  have g: "http ?G (length (http_log (world_with None))) =
      Json \<lparr>resp_errors = Some ''[Throttled 429]'', resp_orders = None\<rparr>"
    by (simp add: env_with_def graphql_errors_page_def)
  from fetchWithRetry_policy
    [of ?G a_session ?q "world_with None" True 1 10
      "\<lparr>resp_errors = Some ''[Throttled 429]'', resp_orders = None\<rparr>" "''[Throttled 429]''"
      250 Null "[]" Null server_error_mentioning_429 "''upstream said 429''" 500
      "''Internal Server Error''"] g
  have e: "fetch_pages ?G a_session 250 Null 10 [] 1 True Null (world_with None) =
     (Inl (Err ''Error'' ''GraphQL errors: [Throttled 429]''),
      (world_with None)\<lparr>http_log := [request_of a_session ?q]\<rparr>)"
    by (simp add: w)
  from t n e show ?thesis
    unfolding r by (simp add: w)
qed

text \<open>
  C8, amended. \<open>fetch_pages\<close> is defined by recursion on \<open>max_pages + 1 - page\<close>, so
  \<open>fetchOrders\<close> returns whatever the source answers. It sends no request once the loop is
  entered with \<open>hasNextPage\<close> false or with the page counter above \<open>max_pages\<close>. It sends at
  most three HTTP requests for each of at most \<open>max_pages\<close> pages, and at most \<open>max_pages\<close>
  requests when no call triggers a retry. When no page carries more than \<open>limit\<close> orders it
  returns at most \<open>max_pages * limit\<close> orders.
\<close>

theorem fetchOrders_bounded:
  "length (http_log (snd (fetchOrders env s options w))) \<le>
     length (http_log w) + 3 * max_pages_of options \<and>
   ((\<forall>k. \<not> retry_triggered (outcome_result (http env k))) \<longrightarrow>
      length (http_log (snd (fetchOrders env s options w))) \<le>
        length (http_log w) + max_pages_of options) \<and>
   ((\<forall>k r od. http env k = Json r \<and> resp_orders r = Some od \<longrightarrow>
        length (edges od) \<le> limit_of options) \<longrightarrow>
      (\<forall>found. fst (fetchOrders env s options w) = Inr found \<longrightarrow>
         length found \<le> max_pages_of options * limit_of options)) \<and>
   (\<not> hn \<or> mp < page \<longrightarrow>
      fetch_pages env s limit cmin mp acc page hn cur w = (Inr acc, w))"
proof -
  obtain res w' where run: "fetch_pages env s (limit_of options) (created_at_min_of options)
      (max_pages_of options) [] 1 True Null w = (res, w')"
    by (cases "fetch_pages env s (limit_of options) (created_at_min_of options)
      (max_pages_of options) [] 1 True Null w")
  then have f: "fetchOrders env s options w = (res, w')"
    by (simp add: fetchOrders_def)
  from fetch_pages_calls [OF run]
  have a: "length (http_log w') \<le> length (http_log w) + 3 * max_pages_of options" by simp
  have b: "(\<forall>k. \<not> retry_triggered (outcome_result (http env k))) \<longrightarrow>
      length (http_log w') \<le> length (http_log w) + max_pages_of options"
    using fetch_pages_calls_unthrottled [OF run] by simp
  have c: "(\<forall>k r od. http env k = Json r \<and> resp_orders r = Some od \<longrightarrow>
        length (edges od) \<le> limit_of options) \<longrightarrow>
      (\<forall>found. res = Inr found \<longrightarrow> length found \<le> max_pages_of options * limit_of options)"
    using fetch_pages_orders [OF run] by (simp add: mult.commute)
  have d: "\<not> hn \<or> mp < page \<longrightarrow>
      fetch_pages env s limit cmin mp acc page hn cur w = (Inr acc, w)"
    using fetch_pages_stop [of hn page mp env s limit cmin acc cur w] by auto
  from a b c d show ?thesis unfolding f by simp
qed

lemma endless_page_no_retry: "\<not> retry_triggered (outcome_result endless_page)"
  by (simp add: endless_page_def outcome_result_def retry_triggered_def)

theorem fetchOrders_bounded_witness:
  "(\<forall>k. \<not> retry_triggered (outcome_result (http (env_with no_faults (\<lambda>n. endless_page)) k))) \<and>
   length (http_log (snd (fetchOrders (env_with no_faults (\<lambda>n. endless_page)) a_session
      two_page_options (world_with None)))) \<le> 2 \<and>
   (case fst (fetchOrders (env_with no_faults (\<lambda>n. endless_page)) a_session
      two_page_options (world_with None)) of Inl e \<Rightarrow> 0 | Inr found \<Rightarrow> length found) \<le> 2"
proof -
  let ?E = "env_with no_faults (\<lambda>n. endless_page)"
  have h: "\<forall>k. \<not> retry_triggered (outcome_result (http ?E k))"
    by (simp add: env_with_def endless_page_no_retry)
  have p: "\<forall>k r od. http ?E k = Json r \<and> resp_orders r = Some od \<longrightarrow>
      length (edges od) \<le> limit_of two_page_options"
    by (auto simp: env_with_def endless_page_def limit_of_def two_page_options_def)
  have m: "max_pages_of two_page_options = 2" "limit_of two_page_options = 1"
    "length (http_log (world_with None)) = 0"
    by (simp_all add: max_pages_of_def limit_of_def two_page_options_def world_with_def)
  from fetchOrders_bounded
    [of ?E a_session two_page_options "world_with None" True 0 0 0 Null "[]" Null] h p
  show ?thesis unfolding m by (simp split: sum.split)
qed

text \<open>
  C8 as stated fails: with \<open>max_pages = 1\<close> and a first call that is rate-limited, the
  fetcher sends two requests.
\<close>

theorem fetchOrders_retry_counterexample:
  "\<not> length (http_log (snd (fetchOrders (env_with no_faults throttled_once) a_session
        one_page_options (world_with None)))) \<le>
      length (http_log (world_with None)) + max_pages_of one_page_options"
proof -
  let ?E = "env_with no_faults throttled_once"
  let ?q = "buildOrdersQuery 250 Null Null"
  have 0: "attempt_result ?E (world_with None) 0 = outcome_result too_many_requests"
    and 1: "attempt_result ?E (world_with None) (Suc 0) = outcome_result empty_page"
    by (simp_all add: attempt_result_def env_with_def throttled_once_def world_with_def)
  have 3: "returned (outcome_result empty_page) =
      Inr (Some \<lparr>resp_errors = None, resp_orders = Some \<lparr>edges = [], hasNextPage = False\<rparr>\<rparr>)"
    by (simp add: returned_def outcome_result_def empty_page_def)
  have r: "fetchWithRetry (http_call ?E a_session ?q) 3 (world_with None) =
      (Inr (Some \<lparr>resp_errors = None, resp_orders = Some \<lparr>edges = [], hasNextPage = False\<rparr>\<rparr>),
       (world_with None)
         \<lparr>http_log := http_log (world_with None) @ [request_of a_session ?q, request_of a_session ?q],
          slept := slept (world_with None) @ [2000]\<rparr>)"
    unfolding fetchWithRetry_three
    by (simp only: 0 1 3 One_nat_def too_many_requests_triggers_retry empty_page_no_retry
        not_True_eq_False not_False_eq_True if_False if_True)
  have o: "limit_of one_page_options = 250" "created_at_min_of one_page_options = Null"
    "max_pages_of one_page_options = 1"
    by (simp_all add: limit_of_def created_at_min_of_def max_pages_of_def one_page_options_def)
  have "fetchOrders ?E a_session one_page_options (world_with None) =
      (Inr [], (world_with None)
         \<lparr>http_log := http_log (world_with None) @ [request_of a_session ?q, request_of a_session ?q],
          slept := slept (world_with None) @ [2000]\<rparr>)"
    unfolding fetchOrders_def o
    by (simp add: fetch_pages_step [OF _ r] fetch_pages_stop)
  then show ?thesis by (simp add: o)
qed






text \<open>The fetcher reads nothing of the state but the number of requests sent so far.\<close>

lemma fetchWithRetry_log_only:
  assumes "http_log v = http_log w"
  shows "fst (fetchWithRetry (http_call env s q) 3 v) = fst (fetchWithRetry (http_call env s q) 3 w) \<and>
         http_log (snd (fetchWithRetry (http_call env s q) 3 v)) =
           http_log (snd (fetchWithRetry (http_call env s q) 3 w))"
  using assms by (simp add: fetchWithRetry_three attempt_result_def)

lemma fetch_pages_log_only:
  assumes "http_log v = http_log w"
  shows "fst (fetch_pages env s limit cmin mp acc page hn cur v) =
           fst (fetch_pages env s limit cmin mp acc page hn cur w) \<and>
         http_log (snd (fetch_pages env s limit cmin mp acc page hn cur v)) =
           http_log (snd (fetch_pages env s limit cmin mp acc page hn cur w))"
  using assms
proof (induction "Suc mp - page" arbitrary: acc page hn cur v w)
  case 0
  then have "\<not> (hn \<and> page \<le> mp)" by simp
  with "0.prems" show ?case by (simp add: fetch_pages_stop)
next
  case (Suc n)
  show ?case
  proof (cases "hn \<and> page \<le> mp")
    case False
    with Suc.prems show ?thesis by (simp add: fetch_pages_stop)
  next
    case True
    let ?q = "buildOrdersQuery limit cur cmin"
    obtain x y where fw: "fetchWithRetry (http_call env s ?q) 3 w = (x, y)"
      by (cases "fetchWithRetry (http_call env s ?q) 3 w")
    obtain x' y' where fv: "fetchWithRetry (http_call env s ?q) 3 v = (x', y')"
      by (cases "fetchWithRetry (http_call env s ?q) 3 v")
    from fetchWithRetry_log_only [OF Suc.prems, of env s ?q] fw fv
    have same: "x' = x" "http_log y' = http_log y" by simp_all
    note sw = fetch_pages_step [OF True fw, where acc = acc]
    note sv = fetch_pages_step [OF True fv [unfolded same(1)], where acc = acc]
    show ?thesis
    proof (cases x)
      case (Inl e)
      with sw sv same show ?thesis by simp
    next
      case (Inr b)
      show ?thesis
      proof (cases b)
        case None
        with Inr sw sv same show ?thesis by simp
      next
        case (Some r)
        show ?thesis
        proof (cases "resp_errors r")
          case (Some js)
          with Inr \<open>b = Some r\<close> sw sv same show ?thesis by simp
        next
          case None
          show ?thesis
          proof (cases "resp_orders r")
            case None
            with Inr \<open>b = Some r\<close> \<open>resp_errors r = None\<close> sw sv same show ?thesis by simp
          next
            case (Some od)
            from True Suc.hyps(2) have n: "n = Suc mp - (page + 1)" by simp
            from same have l: "http_log (if hasNextPage od then sleep 500 y' else y') =
                http_log (if hasNextPage od then sleep 500 y else y)"
              by (simp add: sleep_def)
            from Suc.hyps(1) [OF n l]
              Inr \<open>b = Some r\<close> \<open>resp_errors r = None\<close> Some sw sv
            show ?thesis by simp
          qed
        qed
      qed
    qed
  qed
qed

lemma fetchOrders_log_only:
  "http_log v = http_log w \<Longrightarrow>
   fst (fetchOrders env s options v) = fst (fetchOrders env s options w)"
  unfolding fetchOrders_def by (rule conjunct1 [OF fetch_pages_log_only])



section \<open>Properties of the sync orchestrator\<close>

subsection \<open>Storing the orders of a run\<close>

text \<open>One turn of the loop keeps the count and the table, or adds one to both.\<close>

lemma store_order_effect:
  assumes "store_order env d (t, w) order = (t', w')"
  shows "shops_table w' = shops_table w \<and> http_log w' = http_log w \<and> slept w' = slept w \<and>
         db_ops w \<le> db_ops w' \<and>
         ((newOrdersCount t' = newOrdersCount t \<and> orders_table w' = orders_table w) \<or>
          (newOrdersCount t' = newOrdersCount t + 1 \<and>
           (\<exists>k v. orders_table w k = None \<and> orders_table w' = (orders_table w)(k \<mapsto> v))))"
proof (cases "line_items order")
  case (Val items)
  let ?a = "\<lparr>od_order_id = order_id order, od_shop_domain = d,
             od_order_number = number_or_name order,
             od_total_price = parse_price env (order_total_price order),
             od_currency = Val (order_currency order), od_customer_email = order_email order,
             od_line_items = Val (map to_stored_item items), od_has_sbb_items = Val True,
             od_sbb_session_ids = Val (extractSessionIds order),
             od_created_at = Val (order_created_at order)\<rparr>"
  show ?thesis
  proof (cases "db_fault env (db_ops w)")
    case (Some e)
    from OrderModel_create_fault [OF Some, of ?a] assms Val show ?thesis
      by (auto simp: store_order_def Let_def split: if_splits)
  next
    case None
    show ?thesis
    proof (cases "orders_table w (order_id order)")
      case (Some old)
      with OrderModel_create_duplicate [of w ?a old env] None assms Val show ?thesis
        by (auto simp: store_order_def Let_def)
    next
      case no: None
      with OrderModel_create_new [of w ?a env] None obtain rec w1 where
        c: "OrderModel_create env ?a w = (Inr (Some rec), w1)"
          "orders_table w1 = (orders_table w)(order_id order \<mapsto> rec)"
          "shops_table w1 = shops_table w" "db_ops w1 = Suc (db_ops w)"
          "http_log w1 = http_log w" "slept w1 = slept w"
        by auto
      from assms Val c(1) have "t' = t\<lparr>newOrdersCount := newOrdersCount t + 1,
            totalRevenue := totalRevenue t + io_total_price rec\<rparr>" "w' = w1"
        by (simp_all add: store_order_def Let_def)
      with c no show ?thesis by auto
    qed
  qed
next
  case Undefined
  with assms show ?thesis by (simp add: store_order_def Let_def)
next
  case Null
  with assms show ?thesis by (simp add: store_order_def Let_def)
qed

lemma card_new_keys_step:
  assumes "dom m \<subseteq> dom m1" and "finite (dom m1 - dom m)" and "m1 k = None"
  shows "card (dom (m1(k \<mapsto> v)) - dom m) = Suc (card (dom m1 - dom m))"
proof -
  from assms(1,3) have "k \<notin> dom m" "k \<notin> dom m1 - dom m" by auto
  then have "dom (m1(k \<mapsto> v)) - dom m = insert k (dom m1 - dom m)" by auto
  with assms(2) \<open>k \<notin> dom m1 - dom m\<close> show ?thesis by simp
qed

lemma foldl_store_order:
  assumes "foldl (store_order env d) (t0, w0) sbbOrders = (t, w)"
    and "dom (orders_table wi) \<subseteq> dom (orders_table w0)"
    and "finite (dom (orders_table w0) - dom (orders_table wi))"
    and "newOrdersCount t0 = int (card (dom (orders_table w0) - dom (orders_table wi)))"
  shows "shops_table w = shops_table w0 \<and> http_log w = http_log w0 \<and> slept w = slept w0 \<and>
         db_ops w0 \<le> db_ops w \<and>
         dom (orders_table wi) \<subseteq> dom (orders_table w) \<and>
         finite (dom (orders_table w) - dom (orders_table wi)) \<and>
         newOrdersCount t = int (card (dom (orders_table w) - dom (orders_table wi)))"
  using assms
proof (induction sbbOrders arbitrary: t0 w0)
  case Nil
  then show ?case by simp
next
  case (Cons order rest)
  obtain t1 w1 where s: "store_order env d (t0, w0) order = (t1, w1)"
    by (cases "store_order env d (t0, w0) order")
  note e = store_order_effect [OF s]
  from Cons.prems(1) s have r: "foldl (store_order env d) (t1, w1) rest = (t, w)" by simp
  from e have "(newOrdersCount t1 = newOrdersCount t0 \<and> orders_table w1 = orders_table w0) \<or>
      (newOrdersCount t1 = newOrdersCount t0 + 1 \<and>
       (\<exists>k v. orders_table w0 k = None \<and> orders_table w1 = (orders_table w0)(k \<mapsto> v)))"
    by simp
  then have inv: "dom (orders_table wi) \<subseteq> dom (orders_table w1) \<and>
      finite (dom (orders_table w1) - dom (orders_table wi)) \<and>
      newOrdersCount t1 = int (card (dom (orders_table w1) - dom (orders_table wi)))"
  proof
    assume "newOrdersCount t1 = newOrdersCount t0 \<and> orders_table w1 = orders_table w0"
    with Cons.prems show ?thesis by simp
  next
    assume "newOrdersCount t1 = newOrdersCount t0 + 1 \<and>
       (\<exists>k v. orders_table w0 k = None \<and> orders_table w1 = (orders_table w0)(k \<mapsto> v))"
    then obtain k v where n: "newOrdersCount t1 = newOrdersCount t0 + 1"
      and k: "orders_table w0 k = None" and u: "orders_table w1 = (orders_table w0)(k \<mapsto> v)"
      by blast
    from card_new_keys_step [OF Cons.prems(2) Cons.prems(3) k, of v] Cons.prems n u
    have "newOrdersCount t1 = int (card (dom (orders_table w1) - dom (orders_table wi)))"
      by simp
    moreover from u Cons.prems(2) have "dom (orders_table wi) \<subseteq> dom (orders_table w1)"
      by auto
    moreover have "dom (orders_table w1) - dom (orders_table wi) \<subseteq>
        insert k (dom (orders_table w0) - dom (orders_table wi))"
      using u by auto
    then have "finite (dom (orders_table w1) - dom (orders_table wi))"
      using Cons.prems(3) by (meson finite_insert finite_subset)
    ultimately show ?thesis by simp
  qed
  from Cons.IH [OF r] inv e show ?case by simp
qed

lemma store_orders_effect:
  assumes "store_orders env d sbbOrders w0 = (t, w)"
  shows "shops_table w = shops_table w0 \<and> http_log w = http_log w0 \<and> slept w = slept w0 \<and>
         db_ops w0 \<le> db_ops w \<and>
         dom (orders_table w0) \<subseteq> dom (orders_table w) \<and>
         newOrdersCount t = int (card (dom (orders_table w) - dom (orders_table w0)))"
  using foldl_store_order [of env d _ w0 sbbOrders t w w0] assms
  by (simp add: store_orders_def)

subsection \<open>Sorting newest first\<close>

lemma set_insert_sorted: "set (insert_sorted cmp x ys) = insert x (set ys)"
  by (induction ys) auto

lemma set_array_sort: "set (array_sort cmp xs) = set xs"
  by (induction xs) (simp_all add: array_sort_def set_insert_sorted)

lemma array_sort_Cons: "array_sort cmp (x # xs) = insert_sorted cmp x (array_sort cmp xs)"
  by (simp add: array_sort_def)

lemma newest_first_valid:
  "date_ms env (order_created_at a) \<noteq> None \<Longrightarrow> date_ms env (order_created_at b) \<noteq> None \<Longrightarrow>
   newest_first env a b = created_ms env b - created_ms env a"
  by (auto simp: newest_first_def created_ms_def)

lemma sorted_insert_sorted:
  assumes "sorted_wrt (\<lambda>a b. created_ms env b \<le> created_ms env a) ys"
    and "date_ms env (order_created_at x) \<noteq> None"
    and "\<forall>y \<in> set ys. date_ms env (order_created_at y) \<noteq> None"
  shows "sorted_wrt (\<lambda>a b. created_ms env b \<le> created_ms env a)
           (insert_sorted (newest_first env) x ys)"
  using assms
proof (induction ys)
  case Nil
  then show ?case by simp
next
  case (Cons y ys)
  from Cons.prems have c: "newest_first env x y = created_ms env y - created_ms env x"
    by (simp add: newest_first_valid)
  show ?case
  proof (cases "newest_first env x y \<le> 0")
    case True
    with c Cons.prems show ?thesis by auto
  next
    case False
    with c Cons show ?thesis by (auto simp: set_insert_sorted)
  qed
qed

lemma sorted_array_sort:
  "\<forall>x \<in> set xs. date_ms env (order_created_at x) \<noteq> None \<Longrightarrow>
   sorted_wrt (\<lambda>a b. created_ms env b \<le> created_ms env a) (array_sort (newest_first env) xs)"
proof (induction xs)
  case Nil
  then show ?case by (simp add: array_sort_def)
next
  case (Cons x xs)
  then show ?case
    by (simp add: array_sort_Cons sorted_insert_sorted set_array_sort)
qed

lemma array_sort_head_member:
  "array_sort cmp xs = latest # rest \<Longrightarrow> latest \<in> set xs"
  using set_array_sort [of cmp xs] by auto

lemma array_sort_head_newest:
  assumes "array_sort (newest_first env) xs = latest # rest" and "valid_dates env xs"
  shows "newest_of env xs latest"
proof -
  from assms(2) have v: "\<forall>x \<in> set xs. date_ms env (order_created_at x) \<noteq> None"
    by (simp add: valid_dates_def list_all_iff)
  from sorted_array_sort [OF v] assms(1)
  have "\<forall>y \<in> set rest. created_ms env y \<le> created_ms env latest" by simp
  moreover from set_array_sort [of "newest_first env" xs] assms(1)
  have "set xs = insert latest (set rest)" by simp
  ultimately show ?thesis
    by (auto simp: newest_of_def list_all_iff)
qed

lemma set_sort_newest_first: "set (sort_newest_first env xs) = set xs"
  by (auto simp: sort_newest_first_def set_array_sort dest: mset_eq_setD)

lemma sort_newest_first_head_member:
  "sort_newest_first env xs = latest # rest \<Longrightarrow> latest \<in> set xs"
  using set_sort_newest_first [of env xs] by auto

lemma sort_newest_first_head_newest:
  "sort_newest_first env xs = latest # rest \<Longrightarrow> valid_dates env xs \<Longrightarrow> newest_of env xs latest"
  using array_sort_head_newest [of env xs latest rest] by (simp add: sort_newest_first_def)

lemma sort_newest_first_nonempty: "xs \<noteq> [] \<Longrightarrow> sort_newest_first env xs \<noteq> []"
  using set_sort_newest_first [of env xs] by (metis set_empty)

subsection \<open>The run between setting and clearing the flag\<close>

lemma fetchOrders_frame:
  assumes "fetchOrders env session options w = (res, w1)"
  shows "shops_table w1 = shops_table w \<and> orders_table w1 = orders_table w \<and>
         db_ops w1 = db_ops w \<and> clock_reads w1 = clock_reads w"
  using assms fetch_pages_frame unfolding fetchOrders_def by blast

lemma updateOrderSync_cases:
  assumes "updateOrderSync env d c w = (r, w')"
  shows "orders_table w' = orders_table w \<and> http_log w' = http_log w \<and>
         db_ops w' = Suc (db_ops w) \<and>
         ((\<exists>e. r = Inl e \<and> db_fault env (db_ops w) = Some e \<and> shops_table w' = shops_table w) \<or>
          (\<exists>s'. r = Inr s' \<and> db_fault env (db_ops w) = None \<and>
             shops_table w' = (shops_table w)(d \<mapsto> s') \<and> shop_order_sync s' = Some c))"
proof (cases "db_fault env (db_ops w)")
  case None
  from updateOrderSync_ok [OF None, of d c] assms show ?thesis by (auto simp: None)
next
  case (Some e)
  from updateOrderSync_fault [OF Some, of d c] assms show ?thesis by (auto simp: Some)
qed

lemma sync_body_fetch_failed:
  "fetchOrders env session (fetchOptions s) w = (Inl e, w1) \<Longrightarrow>
   sync_body env d session s w = (Inl e, w1)"
  by (simp add: sync_body_def)

lemma sync_body_no_new:
  assumes "fetchOrders env session (fetchOptions s) w = (Inr allOrders, w1)"
    and "filterSBBOrders allOrders = []"
    and "updateOrderSync env d
           ((case shop_order_sync s of None \<Rightarrow> empty_object | Some c \<Rightarrow> c)
              \<lparr>last_sync_time := Val (clock env (clock_reads w1)), is_syncing := Val False\<rparr>)
           (w1\<lparr>clock_reads := Suc (clock_reads w1)\<rparr>) = (r, w3)"
  shows "sync_body env d session s w =
     (case r of
        Inl e \<Rightarrow> Inl e
      | Inr a \<Rightarrow> Inr (NoNewOrders (num_or_0 (order_sync_field s total_orders_synced))
                        (clock env (clock_reads w1))), w3)"
  using assms by (simp add: sync_body_def now_def Let_def split: sum.split)

lemma sync_body_new:
  assumes "fetchOrders env session (fetchOptions s) w = (Inr allOrders, w1)"
    and "filterSBBOrders allOrders \<noteq> []"
    and "sort_newest_first env (filterSBBOrders allOrders) = latestOrder # rest"
    and "store_orders env d (latestOrder # rest) w1 = (t, w2)"
    and "updateOrderSync env d
           \<lparr>is_syncing = Val False,
            last_sync_time = Val (clock env (clock_reads w2)),
            last_synced_order_id = Val (order_id latestOrder),
            last_synced_order_number = Val (number_or_name latestOrder),
            last_synced_order_created_at = Val (order_created_at latestOrder),
            total_orders_synced =
              Val (num_or_0 (order_sync_field s total_orders_synced) + newOrdersCount t),
            last_sync_count = Val (newOrdersCount t)\<rparr>
           (w2\<lparr>clock_reads := Suc (clock_reads w2)\<rparr>) = (r, w4)"
  shows "sync_body env d session s w =
     (case r of
        Inl e \<Rightarrow> Inl e
      | Inr a \<Rightarrow> Inr (Synced (newOrdersCount t) (duplicatesSkipped t)
                        (num_or_0 (order_sync_field s total_orders_synced) + newOrdersCount t)
                        (totalRevenue t) (clock env (clock_reads w2))), w4)"
  using assms by (simp add: sync_body_def now_def Let_def split: sum.split)

text \<open>A run that throws leaves the shop table as it found it.\<close>

lemma sync_body_failure:
  assumes "sync_body env d session s w = (Inl e, w')"
  shows "shops_table w' = shops_table w \<and> dom (orders_table w) \<subseteq> dom (orders_table w') \<and>
         db_ops w \<le> db_ops w' \<and>
         http_log w' = http_log (snd (fetchOrders env session (fetchOptions s) w))"
proof -
  obtain res w1 where f: "fetchOrders env session (fetchOptions s) w = (res, w1)"
    by (cases "fetchOrders env session (fetchOptions s) w")
  note fr = fetchOrders_frame [OF f]
  from f have sf: "snd (fetchOrders env session (fetchOptions s) w) = w1" by simp
  show ?thesis
  proof (cases res)
    case (Inl e1)
    with f assms fr show ?thesis by (simp add: sync_body_fetch_failed)
  next
    case (Inr allOrders)
    show ?thesis
    proof (cases "filterSBBOrders allOrders = []")
      case True
      obtain r w3 where u: "updateOrderSync env d
           ((case shop_order_sync s of None \<Rightarrow> empty_object | Some c \<Rightarrow> c)
              \<lparr>last_sync_time := Val (clock env (clock_reads w1)), is_syncing := Val False\<rparr>)
           (w1\<lparr>clock_reads := Suc (clock_reads w1)\<rparr>) = (r, w3)"
        by (cases "updateOrderSync env d
           ((case shop_order_sync s of None \<Rightarrow> empty_object | Some c \<Rightarrow> c)
              \<lparr>last_sync_time := Val (clock env (clock_reads w1)), is_syncing := Val False\<rparr>)
           (w1\<lparr>clock_reads := Suc (clock_reads w1)\<rparr>)")
      from sync_body_no_new [OF f [unfolded Inr] True u] assms
      have "r = Inl e" "w' = w3" by (auto split: sum.splits)
      with updateOrderSync_cases [OF u] fr sf show ?thesis by auto
    next
      case False
      then obtain latestOrder rest where
        so: "sort_newest_first env (filterSBBOrders allOrders) = latestOrder # rest"
        using sort_newest_first_nonempty [of "filterSBBOrders allOrders" env]
        by (cases "sort_newest_first env (filterSBBOrders allOrders)") auto
      obtain t w2 where st: "store_orders env d (latestOrder # rest) w1 = (t, w2)"
        by (cases "store_orders env d (latestOrder # rest) w1")
      obtain r w4 where u: "updateOrderSync env d
           \<lparr>is_syncing = Val False,
            last_sync_time = Val (clock env (clock_reads w2)),
            last_synced_order_id = Val (order_id latestOrder),
            last_synced_order_number = Val (number_or_name latestOrder),
            last_synced_order_created_at = Val (order_created_at latestOrder),
            total_orders_synced =
              Val (num_or_0 (order_sync_field s total_orders_synced) + newOrdersCount t),
            last_sync_count = Val (newOrdersCount t)\<rparr>
           (w2\<lparr>clock_reads := Suc (clock_reads w2)\<rparr>) = (r, w4)"
        by (cases "updateOrderSync env d
           \<lparr>is_syncing = Val False,
            last_sync_time = Val (clock env (clock_reads w2)),
            last_synced_order_id = Val (order_id latestOrder),
            last_synced_order_number = Val (number_or_name latestOrder),
            last_synced_order_created_at = Val (order_created_at latestOrder),
            total_orders_synced =
              Val (num_or_0 (order_sync_field s total_orders_synced) + newOrdersCount t),
            last_sync_count = Val (newOrdersCount t)\<rparr>
           (w2\<lparr>clock_reads := Suc (clock_reads w2)\<rparr>)")
      from sync_body_new [OF f [unfolded Inr] False so st u] assms
      have "r = Inl e" "w' = w4" by (auto split: sum.splits)
      with updateOrderSync_cases [OF u] store_orders_effect [OF st] fr sf show ?thesis by auto
    qed
  qed
qed

text \<open>
  A run that returns has replaced the checkpoint: by the one it read with a new sync time
  and the flag cleared when nothing was selected, and otherwise by one taken from the first
  order of the sorted selection and the count of the orders it created.
\<close>

lemma sync_body_success:
  assumes "sync_body env d session s w = (Inr out, w')"
  shows "\<exists>allOrders w1 s' c.
     fetchOrders env session (fetchOptions s) w = (Inr allOrders, w1) \<and>
     http_log w' = http_log w1 \<and>
     shops_table w' = (shops_table w)(d \<mapsto> s') \<and> shop_order_sync s' = Some c \<and>
     is_syncing c = Val False \<and> dom (orders_table w) \<subseteq> dom (orders_table w') \<and>
     last_storage_call_succeeded env w' \<and>
     (if filterSBBOrders allOrders = [] then
        orders_table w' = orders_table w \<and>
        total_orders_synced c = order_sync_field s total_orders_synced \<and>
        (\<exists>time. out = NoNewOrders (num_or_0 (order_sync_field s total_orders_synced)) time)
      else
        (\<exists>latest rest dup rev time.
           sort_newest_first env (filterSBBOrders allOrders) = latest # rest \<and>
           last_synced_order_id c = Val (order_id latest) \<and>
           last_synced_order_number c = Val (number_or_name latest) \<and>
           last_synced_order_created_at c = Val (order_created_at latest) \<and>
           total_orders_synced c =
             Val (num_or_0 (order_sync_field s total_orders_synced) +
                  int (card (created_in_run w w'))) \<and>
           out = Synced (int (card (created_in_run w w'))) dup
                   (num_or_0 (order_sync_field s total_orders_synced) +
                    int (card (created_in_run w w'))) rev time))"
proof -
  obtain res w1 where f: "fetchOrders env session (fetchOptions s) w = (res, w1)"
    by (cases "fetchOrders env session (fetchOptions s) w")
  note fr = fetchOrders_frame [OF f]
  show ?thesis
  proof (cases res)
    case (Inl e1)
    with f assms show ?thesis by (simp add: sync_body_fetch_failed)
  next
    case (Inr allOrders)
    show ?thesis
    proof (cases "filterSBBOrders allOrders = []")
      case True
      let ?c = "(case shop_order_sync s of None \<Rightarrow> empty_object | Some c \<Rightarrow> c)
              \<lparr>last_sync_time := Val (clock env (clock_reads w1)), is_syncing := Val False\<rparr>"
      obtain r w3 where u: "updateOrderSync env d ?c (w1\<lparr>clock_reads := Suc (clock_reads w1)\<rparr>) =
          (r, w3)"
        by (cases "updateOrderSync env d ?c (w1\<lparr>clock_reads := Suc (clock_reads w1)\<rparr>)")
      from sync_body_no_new [OF f [unfolded Inr] True u] assms
      obtain a where r: "r = Inr a" and w: "w' = w3"
        and o: "out = NoNewOrders (num_or_0 (order_sync_field s total_orders_synced))
                 (clock env (clock_reads w1))"
        by (auto split: sum.splits)
      from updateOrderSync_cases [OF u] r obtain s' where
        s': "shops_table w3 = (shops_table w1)(d \<mapsto> s')" "shop_order_sync s' = Some ?c"
          "orders_table w3 = orders_table w1" "db_ops w3 = Suc (db_ops w1)"
          "db_fault env (db_ops w1) = None" "http_log w3 = http_log w1"
        by auto
      have t: "total_orders_synced ?c = order_sync_field s total_orders_synced"
        by (simp add: order_sync_field_def empty_object_def split: option.split)
      from s' fr w o t True f [unfolded Inr] show ?thesis
        by (auto simp: last_storage_call_succeeded_def)
    next
      case False
      then obtain latestOrder rest where
        so: "sort_newest_first env (filterSBBOrders allOrders) = latestOrder # rest"
        using sort_newest_first_nonempty [of "filterSBBOrders allOrders" env]
        by (cases "sort_newest_first env (filterSBBOrders allOrders)") auto
      obtain t w2 where st: "store_orders env d (latestOrder # rest) w1 = (t, w2)"
        by (cases "store_orders env d (latestOrder # rest) w1")
      let ?c = "\<lparr>is_syncing = Val False,
            last_sync_time = Val (clock env (clock_reads w2)),
            last_synced_order_id = Val (order_id latestOrder),
            last_synced_order_number = Val (number_or_name latestOrder),
            last_synced_order_created_at = Val (order_created_at latestOrder),
            total_orders_synced =
              Val (num_or_0 (order_sync_field s total_orders_synced) + newOrdersCount t),
            last_sync_count = Val (newOrdersCount t)\<rparr>"
      obtain r w4 where u: "updateOrderSync env d ?c (w2\<lparr>clock_reads := Suc (clock_reads w2)\<rparr>) =
          (r, w4)"
        by (cases "updateOrderSync env d ?c (w2\<lparr>clock_reads := Suc (clock_reads w2)\<rparr>)")
      from sync_body_new [OF f [unfolded Inr] False so st u] assms
      obtain a where r: "r = Inr a" and w: "w' = w4"
        and o: "out = Synced (newOrdersCount t) (duplicatesSkipped t)
                        (num_or_0 (order_sync_field s total_orders_synced) + newOrdersCount t)
                        (totalRevenue t) (clock env (clock_reads w2))"
        by (auto split: sum.splits)
      from updateOrderSync_cases [OF u] r obtain s' where
        s': "shops_table w4 = (shops_table w2)(d \<mapsto> s')" "shop_order_sync s' = Some ?c"
          "orders_table w4 = orders_table w2" "db_ops w4 = Suc (db_ops w2)"
          "db_fault env (db_ops w2) = None" "http_log w4 = http_log w2"
        by auto
      note se = store_orders_effect [OF st]
      from se fr s' w have n: "newOrdersCount t = int (card (created_in_run w w'))"
        by (simp add: created_in_run_def)
      from se fr s' w have sh: "shops_table w' = (shops_table w)(d \<mapsto> s')"
        and dm: "dom (orders_table w) \<subseteq> dom (orders_table w')"
        and ls: "last_storage_call_succeeded env w'"
        and hl: "http_log w' = http_log w1"
        by (simp_all add: last_storage_call_succeeded_def)
      from sh dm ls hl s'(2) n o so False f [unfolded Inr] show ?thesis
        by auto
    qed
  qed
qed

subsection \<open>The route\<close>

lemma setSyncingFlag_cases:
  assumes "setSyncingFlag env d flag w = (r, w')" and "shops_table w d = Some s"
  shows "orders_table w' = orders_table w \<and> http_log w' = http_log w \<and> db_ops w < db_ops w' \<and>
         db_ops w' \<le> db_ops w + 2 \<and>
         ((\<exists>e. r = Inl e \<and> shops_table w' = shops_table w \<and>
               db_fault env (db_ops w' - 1) = Some e \<and>
               \<not> last_storage_call_succeeded env w') \<or>
          (\<exists>s' c. r = Inr s' \<and> shops_table w' = (shops_table w)(d \<mapsto> s') \<and>
               shop_order_sync s' = Some c \<and> is_syncing c = Val flag \<and>
               total_orders_synced c = or_n (order_sync_field s total_orders_synced) (Val 0) \<and>
               db_ops w' = db_ops w + 2 \<and>
               last_storage_call_succeeded env w'))"
proof (cases "db_fault env (db_ops w)")
  case (Some e)
  from setSyncingFlag_read_fault [OF Some, of d flag] assms Some show ?thesis
    by (auto simp: last_storage_call_succeeded_def)
next
  case None
  show ?thesis
  proof (cases "db_fault env (Suc (db_ops w))")
    case (Some e)
    from setSyncingFlag_write_fault [OF assms(2) None Some, of flag] assms Some show ?thesis
      by (auto simp: last_storage_call_succeeded_def)
  next
    case ok: None
    from setSyncingFlag_ok [OF assms(2) None ok, of flag] assms ok show ?thesis
      by (auto simp: last_storage_call_succeeded_def Let_def)
  qed
qed

lemma sync_orders_guard_passed:
  assumes "body_session req = Some session" and "body_shop_domain req = Val d" and "d \<noteq> []"
    and "db_fault env (db_ops w) = None" and "shops_table w d = Some s"
    and "\<not> truthy_b (order_sync_field s is_syncing)"
  shows "sync_orders env req w =
     (case setSyncingFlag env d True (w\<lparr>db_ops := Suc (db_ops w)\<rparr>) of
        (Inl e, w2) \<Rightarrow> (Failed (err_message e), w2)
      | (Inr a, w2) \<Rightarrow>
          (case sync_body env d session s w2 of
             (Inr out, w3) \<Rightarrow> (out, w3)
           | (Inl e, w3) \<Rightarrow>
               (case setSyncingFlag env d False w3 of
                  (Inl e', w4) \<Rightarrow> (Failed (err_message e'), w4)
                | (Inr b, w4) \<Rightarrow> (Failed (err_message e), w4))))"
  using assms
  by (simp add: sync_orders_def ShopModel_findOne_ok str_or_def truthy_s_def Let_def)

lemma sync_orders_refused:
  assumes "body_session req = Some session" and "body_shop_domain req = Val d" and "d \<noteq> []"
    and "shops_table w d = Some s" and "truthy_b (order_sync_field s is_syncing)"
  shows "sync_orders env req w =
     (case db_fault env (db_ops w) of None \<Rightarrow> AlreadyInProgress | Some e \<Rightarrow> Failed (err_message e),
      w\<lparr>db_ops := Suc (db_ops w)\<rparr>)"
proof (cases "db_fault env (db_ops w)")
  case None
  with assms show ?thesis
    by (simp add: sync_orders_def ShopModel_findOne_ok str_or_def truthy_s_def Let_def)
next
  case (Some e)
  with assms show ?thesis
    by (simp add: sync_orders_def ShopModel_findOne_fault str_or_def truthy_s_def Let_def)
qed

text \<open>
  C4. A request for a shop whose stored checkpoint has \<open>is_syncing = true\<close> changes neither
  table and sends no request to the order source; when the read of the shop succeeds the
  outcome is "sync already in progress".
\<close>

theorem sync_refused_while_syncing:
  "body_session req = Some session \<and> body_shop_domain req = Val d \<and> d \<noteq> [] \<and>
   checkpoint_field w d is_syncing = Val True \<longrightarrow>
     shops_table (snd (sync_orders env req w)) = shops_table w \<and>
     orders_table (snd (sync_orders env req w)) = orders_table w \<and>
     http_log (snd (sync_orders env req w)) = http_log w \<and>
     (db_fault env (db_ops w) = None \<longrightarrow> fst (sync_orders env req w) = AlreadyInProgress)"
proof
  assume h: "body_session req = Some session \<and> body_shop_domain req = Val d \<and> d \<noteq> [] \<and>
    checkpoint_field w d is_syncing = Val True"
  then obtain s where s: "shops_table w d = Some s" "order_sync_field s is_syncing = Val True"
    by (auto simp: checkpoint_field_def split: option.splits)
  then have "truthy_b (order_sync_field s is_syncing)" by (simp add: truthy_b_def)
  from sync_orders_refused [OF _ _ _ s(1) this, of req session env] h
  show "shops_table (snd (sync_orders env req w)) = shops_table w \<and>
     orders_table (snd (sync_orders env req w)) = orders_table w \<and>
     http_log (snd (sync_orders env req w)) = http_log w \<and>
     (db_fault env (db_ops w) = None \<longrightarrow> fst (sync_orders env req w) = AlreadyInProgress)"
    by simp
qed

theorem sync_refused_while_syncing_witness:
  "checkpoint_field (world_with (Some syncing_checkpoint)) ''a.example'' is_syncing = Val True \<and>
   fst (sync_orders (env_with no_faults (\<lambda>n. empty_page)) a_request
          (world_with (Some syncing_checkpoint))) = AlreadyInProgress \<and>
   shops_table (snd (sync_orders (env_with no_faults (\<lambda>n. empty_page)) a_request
          (world_with (Some syncing_checkpoint)))) =
     shops_table (world_with (Some syncing_checkpoint))"
proof -
  let ?E = "env_with no_faults (\<lambda>n. empty_page)"
  let ?W = "world_with (Some syncing_checkpoint)"
  have h: "body_session a_request = Some a_session \<and>
      body_shop_domain a_request = Val ''a.example'' \<and> ''a.example'' \<noteq> [] \<and>
      checkpoint_field ?W ''a.example'' is_syncing = Val True"
    by (simp add: a_request_def checkpoint_field_def world_with_def shop_with_def
        order_sync_field_def syncing_checkpoint_def)
  have f: "db_fault ?E (db_ops ?W) = None"
    by (simp add: env_with_def no_faults_def)
  from sync_refused_while_syncing [of a_request a_session "''a.example''" ?W ?E] h f
  show ?thesis by blast
qed

lemma num_or_0_or_n: "num_or_0 (or_n x (Val 0)) = num_or_0 x"
  by (cases x) (auto simp: num_or_0_def or_n_def truthy_n_def)

text \<open>The ways a request can go, with what is known of the final state in each.\<close>

lemma sync_orders_run [consumes 2, case_names refused early body_ok body_failed]:
  assumes run: "sync_orders env req w = (out, w')" and dom: "body_shop_domain req = Val d"
  obtains
    (refused) "\<not> passed_guard out" "shops_table w' = shops_table w"
      "orders_table w' = orders_table w" "http_log w' = http_log w"
  | (early) e where "out = Failed (err_message e)" "db_fault env (db_ops w' - 1) = Some e"
      "db_ops w < db_ops w'" "db_ops w' \<le> db_ops w + 3"
      "shops_table w' = shops_table w" "orders_table w' = orders_table w"
      "http_log w' = http_log w" "\<not> last_storage_call_succeeded env w'"
  | (body_ok) session s s2 w2 where "body_session req = Some session" "shops_table w d = Some s"
      "setSyncingFlag env d True (w\<lparr>db_ops := Suc (db_ops w)\<rparr>) = (Inr s2, w2)"
      "sync_body env d session s w2 = (Inr out, w')"
  | (body_failed) session s s2 w2 e w3 r4 where "body_session req = Some session"
      "shops_table w d = Some s"
      "setSyncingFlag env d True (w\<lparr>db_ops := Suc (db_ops w)\<rparr>) = (Inr s2, w2)"
      "sync_body env d session s w2 = (Inl e, w3)"
      "setSyncingFlag env d False w3 = (r4, w')"
      "out = Failed (case r4 of Inl e' \<Rightarrow> err_message e' | Inr b \<Rightarrow> err_message e)"
proof (cases "body_session req")
  case None
  with run have "out = BadRequest" "w' = w" by (simp_all add: sync_orders_def)
  then show ?thesis using refused by (simp add: passed_guard_def)
next
  case (Some session)
  show ?thesis
  proof (cases "d = []")
    case True
    with run dom Some have "out = BadRequest" "w' = w"
      by (simp_all add: sync_orders_def truthy_s_def)
    then show ?thesis using refused by (simp add: passed_guard_def)
  next
    case ne: False
    show ?thesis
    proof (cases "db_fault env (db_ops w)")
      case (Some e)
      with run dom \<open>body_session req = Some session\<close> ne
      have "w' = w\<lparr>db_ops := Suc (db_ops w)\<rparr>" "out = Failed (err_message e)"
        by (simp_all add: sync_orders_def ShopModel_findOne_fault truthy_s_def str_or_def Let_def)
      with Some show ?thesis using early [of e] by (simp add: last_storage_call_succeeded_def)
    next
      case None
      show ?thesis
      proof (cases "shops_table w d")
        case nf: None
        with run dom \<open>body_session req = Some session\<close> ne None
        have "out = ShopNotFound" "w' = w\<lparr>db_ops := Suc (db_ops w)\<rparr>"
          by (simp_all add: sync_orders_def ShopModel_findOne_ok truthy_s_def str_or_def Let_def)
        then show ?thesis using refused by (simp add: passed_guard_def)
      next
        case (Some s)
        show ?thesis
        proof (cases "truthy_b (order_sync_field s is_syncing)")
          case True
          from sync_orders_refused [OF \<open>body_session req = Some session\<close> dom ne Some True, of env]
            run None
          have "out = AlreadyInProgress" "w' = w\<lparr>db_ops := Suc (db_ops w)\<rparr>" by simp_all
          then show ?thesis using refused by (simp add: passed_guard_def)
        next
          case False
          note g = sync_orders_guard_passed
            [OF \<open>body_session req = Some session\<close> dom ne None Some False]
          let ?w1 = "w\<lparr>db_ops := Suc (db_ops w)\<rparr>"
          obtain r2 w2 where f1: "setSyncingFlag env d True ?w1 = (r2, w2)"
            by (cases "setSyncingFlag env d True ?w1")
          have s1: "shops_table ?w1 d = Some s" using Some by simp
          note c1 = setSyncingFlag_cases [OF f1 s1]
          show ?thesis
          proof (cases r2)
            case (Inl e)
            with run g f1 have "w' = w2" "out = Failed (err_message e)" by simp_all
            with c1 Inl show ?thesis using early [of e] by auto
          next
            case (Inr s2)
            obtain r3 w3 where b: "sync_body env d session s w2 = (r3, w3)"
              by (cases "sync_body env d session s w2")
            show ?thesis
            proof (cases r3)
              case ok: (Inr out')
              with run g f1 Inr b have "out = out'" "w' = w3" by simp_all
              with b ok f1 Inr show ?thesis
                using body_ok [OF \<open>body_session req = Some session\<close> Some] by simp
            next
              case (Inl e)
              obtain r4 w4 where f2: "setSyncingFlag env d False w3 = (r4, w4)"
                by (cases "setSyncingFlag env d False w3")
              with run g f1 Inr b Inl have "w' = w4"
                "out = Failed (case r4 of Inl e' \<Rightarrow> err_message e' | Inr b \<Rightarrow> err_message e)"
                by (auto split: sum.splits)
              with b Inl f1 Inr f2 show ?thesis
                using body_failed [OF \<open>body_session req = Some session\<close> Some] by simp
            qed
          qed
        qed
      qed
    qed
  qed
qed


lemma setSyncingFlag_returns_stored:
  assumes "setSyncingFlag env d flag w = (Inr s', w')" and "shops_table w d = Some s"
  shows "shops_table w' d = Some s' \<and> orders_table w' = orders_table w \<and>
         http_log w' = http_log w \<and>
         order_sync_field s' is_syncing = Val flag \<and>
         num_or_0 (order_sync_field s' total_orders_synced) =
           num_or_0 (order_sync_field s total_orders_synced) \<and>
         shops_table w' = (shops_table w)(d \<mapsto> s')"
  using setSyncingFlag_cases [OF assms]
  by (auto simp: order_sync_field_def num_or_0_or_n)

text \<open>
  C2, amended. A run that got past the already-syncing guard, and whose last storage call
  did not fail, leaves \<open>is_syncing = false\<close> in the stored checkpoint, whether it reports
  new orders, no new orders or a failure. (The last storage call is the checkpoint write
  of a run that returns, and the write of \<open>setSyncingFlag(false)\<close> of a run that throws.)
  When the last storage call of the run failed, the caller receives the error of that call.
  If the run made at most three storage calls (the read of the shop and the two calls of
  \<open>setSyncingFlag(true)\<close>), the shop table is as it was before the run; otherwise the call
  that failed is the clearing one, the shop table is as \<open>setSyncingFlag(true)\<close> left it
  and the flag is still \<open>true\<close>.
\<close>

theorem sync_clears_flag:
  assumes "sync_orders env req w = (out, w')" and "body_shop_domain req = Val d"
    and "passed_guard out"
  shows "(last_storage_call_succeeded env w' \<longrightarrow> checkpoint_field w' d is_syncing = Val False) \<and>
         (\<not> last_storage_call_succeeded env w' \<longrightarrow>
            (\<exists>e. db_fault env (db_ops w' - 1) = Some e \<and> out = Failed (err_message e)) \<and>
            (if storage_calls w w' \<le> 3 then shops_table w' = shops_table w
             else shops_table w' =
                    shops_table (snd (setSyncingFlag env d True (w\<lparr>db_ops := Suc (db_ops w)\<rparr>))) \<and>
                  checkpoint_field w' d is_syncing = Val True))"
  using assms(1,2)
proof (cases rule: sync_orders_run)
  case refused
  with assms(3) show ?thesis by simp
next
  case (early e)
  from early(4) have "storage_calls w w' \<le> 3" unfolding storage_calls_def by arith
  with early show ?thesis by simp
next
  case (body_ok session s s2 w2)
  from sync_body_success [OF body_ok(4)] obtain s' c where
    "shops_table w' = (shops_table w2)(d \<mapsto> s')" "shop_order_sync s' = Some c"
    "is_syncing c = Val False" "last_storage_call_succeeded env w'"
    by blast
  then show ?thesis by (simp add: checkpoint_field_def order_sync_field_def)
next
  case (body_failed session s s2 w2 e w3 r4)
  let ?w1 = "w\<lparr>db_ops := Suc (db_ops w)\<rparr>"
  from body_failed(2) have s1: "shops_table ?w1 d = Some s" by simp
  from setSyncingFlag_returns_stored [OF body_failed(3) s1]
  have s2: "shops_table w2 d = Some s2" "order_sync_field s2 is_syncing = Val True" by simp_all
  from setSyncingFlag_cases [OF body_failed(3) s1] have d2: "db_ops w2 = db_ops w + 3" by auto
  note bf = sync_body_failure [OF body_failed(4)]
  from bf s2 have s3: "shops_table w3 d = Some s2" by simp
  note c4 = setSyncingFlag_cases [OF body_failed(5) s3]
  from c4 have "db_ops w3 < db_ops w'" by simp
  moreover from bf d2 have "db_ops w + 3 \<le> db_ops w3" by simp
  ultimately have many: "\<not> storage_calls w w' \<le> 3" unfolding storage_calls_def by arith
  show ?thesis
  proof (cases r4)
    case (Inr s4)
    with c4 show ?thesis by (auto simp: checkpoint_field_def order_sync_field_def)
  next
    case (Inl e')
    with c4 have f: "db_fault env (db_ops w' - 1) = Some e'"
      "\<not> last_storage_call_succeeded env w'" "shops_table w' = shops_table w3"
      by auto
    from Inl body_failed(6) have o: "out = Failed (err_message e')" by simp
    from f(3) bf body_failed(3)
    have t: "shops_table w' = shops_table (snd (setSyncingFlag env d True ?w1))" by simp
    from f(3) s3 s2 have "checkpoint_field w' d is_syncing = Val True"
      by (simp add: checkpoint_field_def)
    with f o t many show ?thesis by simp
  qed
qed

lemma created_in_run_from:
  "orders_table w2 = orders_table w \<Longrightarrow> created_in_run w2 w' = created_in_run w w'"
  by (simp add: created_in_run_def)

text \<open>
  C7, amended. A run that reports new orders stores the total it read plus the number of
  orders the run created, and reports both; a run that reports no new orders creates none
  and keeps the stored total; a run that reports a failure leaves the stored total, read
  as a number, as it was, whatever it stored before failing; and whatever the outcome,
  refusal included, the stored total read as a number does not decrease.
\<close>

theorem total_orders_synced_accumulates:
  assumes "sync_orders env req w = (out, w')" and "body_shop_domain req = Val d"
  shows "(\<forall>n dups tot revenue t. out = Synced n dups tot revenue t \<longrightarrow>
            n = int (card (created_in_run w w')) \<and> tot = stored_total w d + n \<and>
            checkpoint_field w' d total_orders_synced = Val (stored_total w d + n)) \<and>
         (\<forall>tot t. out = NoNewOrders tot t \<longrightarrow>
            created_in_run w w' = {} \<and>
            checkpoint_field w' d total_orders_synced = checkpoint_field w d total_orders_synced) \<and>
         (\<forall>m. out = Failed m \<longrightarrow> stored_total w' d = stored_total w d) \<and>
         stored_total w d \<le> stored_total w' d"
  using assms
proof (cases rule: sync_orders_run)
  case refused
  then show ?thesis
    by (auto simp: passed_guard_def stored_total_def checkpoint_field_def)
next
  case (early e)
  then show ?thesis
    by (simp add: stored_total_def checkpoint_field_def)
next
  case (body_ok session s s2 w2)
  from body_ok(2) have "shops_table (w\<lparr>db_ops := Suc (db_ops w)\<rparr>) d = Some s" by simp
  from setSyncingFlag_returns_stored [OF body_ok(3) this]
  have o2: "orders_table w2 = orders_table w" by simp
  have before: "checkpoint_field w d total_orders_synced = order_sync_field s total_orders_synced"
    using body_ok(2) by (simp add: checkpoint_field_def)
  from sync_body_success [OF body_ok(4)] obtain allOrders s' c where
    r: "shops_table w' = (shops_table w2)(d \<mapsto> s')" "shop_order_sync s' = Some c"
    and k: "if filterSBBOrders allOrders = [] then
        orders_table w' = orders_table w2 \<and>
        total_orders_synced c = order_sync_field s total_orders_synced \<and>
        (\<exists>time. out = NoNewOrders (num_or_0 (order_sync_field s total_orders_synced)) time)
      else
        (\<exists>latest rest dup rev time.
           sort_newest_first env (filterSBBOrders allOrders) = latest # rest \<and>
           last_synced_order_id c = Val (order_id latest) \<and>
           last_synced_order_number c = Val (number_or_name latest) \<and>
           last_synced_order_created_at c = Val (order_created_at latest) \<and>
           total_orders_synced c =
             Val (num_or_0 (order_sync_field s total_orders_synced) +
                  int (card (created_in_run w2 w'))) \<and>
           out = Synced (int (card (created_in_run w2 w'))) dup
                   (num_or_0 (order_sync_field s total_orders_synced) +
                    int (card (created_in_run w2 w'))) rev time)"
    by blast
  from r have after: "checkpoint_field w' d total_orders_synced = total_orders_synced c"
    by (simp add: checkpoint_field_def order_sync_field_def)
  show ?thesis
  proof (cases "filterSBBOrders allOrders = []")
    case True
    with k o2 before after show ?thesis
      by (auto simp: created_in_run_def stored_total_def)
  next
    case False
    with k before after show ?thesis
      by (auto simp: created_in_run_from [OF o2] stored_total_def num_or_0_def)
  qed
next
  case (body_failed session s s2 w2 e w3 r4)
  from body_failed(2) have "shops_table (w\<lparr>db_ops := Suc (db_ops w)\<rparr>) d = Some s" by simp
  from setSyncingFlag_returns_stored [OF body_failed(3) this]
  have s2: "shops_table w2 d = Some s2"
    "num_or_0 (order_sync_field s2 total_orders_synced) =
       num_or_0 (order_sync_field s total_orders_synced)"
    by simp_all
  with sync_body_failure [OF body_failed(4)] have s3: "shops_table w3 d = Some s2" by simp
  have "stored_total w' d = stored_total w d"
  proof (cases r4)
    case (Inl e')
    with setSyncingFlag_cases [OF body_failed(5) s3] s3 s2 body_failed(2) show ?thesis
      by (auto simp: stored_total_def checkpoint_field_def)
  next
    case (Inr s4)
    with setSyncingFlag_returns_stored [OF body_failed(5) [unfolded Inr] s3] s2 body_failed(2)
    show ?thesis
      by (simp add: stored_total_def checkpoint_field_def)
  qed
  with body_failed(6) show ?thesis by simp
qed

text \<open>
  C3, amended. After a run that reports new orders, the checkpoint's order identifier,
  order number and creation timestamp are those of one and the same order, which is among
  the selected (marker-tagged) orders of what the fetcher returned for the request; when
  the creation dates of the selected orders are valid, none of the selected orders was
  created later.
\<close>

theorem high_water_mark_of_selection:
  assumes "sync_orders env req w = (Synced n dups tot revenue t, w')"
    and "body_shop_domain req = Val d"
  shows "\<exists>session s allOrders latest.
     body_session req = Some session \<and> shops_table w d = Some s \<and>
     fst (fetchOrders env session (fetchOptions s) w) = Inr allOrders \<and>
     latest \<in> set (filterSBBOrders allOrders) \<and>
     (valid_dates env (filterSBBOrders allOrders) \<longrightarrow>
        newest_of env (filterSBBOrders allOrders) latest) \<and>
     checkpoint_field w' d last_synced_order_created_at = Val (order_created_at latest) \<and>
     checkpoint_field w' d last_synced_order_id = Val (order_id latest) \<and>
     checkpoint_field w' d last_synced_order_number = Val (number_or_name latest)"
  using assms
proof (cases rule: sync_orders_run)
  case refused
  then show ?thesis by (simp add: passed_guard_def)
next
  case (early e)
  then show ?thesis by simp
next
  case (body_ok session s s2 w2)
  from body_ok(2) have "shops_table (w\<lparr>db_ops := Suc (db_ops w)\<rparr>) d = Some s" by simp
  from setSyncingFlag_returns_stored [OF body_ok(3) this]
  have h2: "http_log w2 = http_log w" by simp
  from sync_body_success [OF body_ok(4)] obtain allOrders w3 s' c where
    f: "fetchOrders env session (fetchOptions s) w2 = (Inr allOrders, w3)"
    and r: "shops_table w' = (shops_table w2)(d \<mapsto> s')" "shop_order_sync s' = Some c"
    and k: "if filterSBBOrders allOrders = [] then
        orders_table w' = orders_table w2 \<and>
        total_orders_synced c = order_sync_field s total_orders_synced \<and>
        (\<exists>time. Synced n dups tot revenue t =
           NoNewOrders (num_or_0 (order_sync_field s total_orders_synced)) time)
      else
        (\<exists>latest rest dup' rev' time.
           sort_newest_first env (filterSBBOrders allOrders) = latest # rest \<and>
           last_synced_order_id c = Val (order_id latest) \<and>
           last_synced_order_number c = Val (number_or_name latest) \<and>
           last_synced_order_created_at c = Val (order_created_at latest) \<and>
           total_orders_synced c =
             Val (num_or_0 (order_sync_field s total_orders_synced) +
                  int (card (created_in_run w2 w'))) \<and>
           Synced n dups tot revenue t = Synced (int (card (created_in_run w2 w'))) dup'
                   (num_or_0 (order_sync_field s total_orders_synced) +
                    int (card (created_in_run w2 w'))) rev' time)"
    by blast
  from k obtain latest rest where
    so: "sort_newest_first env (filterSBBOrders allOrders) = latest # rest"
    and c: "last_synced_order_id c = Val (order_id latest)"
      "last_synced_order_number c = Val (number_or_name latest)"
      "last_synced_order_created_at c = Val (order_created_at latest)"
    by (auto split: if_splits)
  from r c have st:
    "checkpoint_field w' d last_synced_order_created_at = Val (order_created_at latest)"
    "checkpoint_field w' d last_synced_order_id = Val (order_id latest)"
    "checkpoint_field w' d last_synced_order_number = Val (number_or_name latest)"
    by (simp_all add: checkpoint_field_def order_sync_field_def)
  from fetchOrders_log_only [OF h2, of env session "fetchOptions s"] f
  have fw: "fst (fetchOrders env session (fetchOptions s) w) = Inr allOrders" by simp
  from sort_newest_first_head_member [OF so] sort_newest_first_head_newest [OF so]
  have "latest \<in> set (filterSBBOrders allOrders)"
    "valid_dates env (filterSBBOrders allOrders) \<longrightarrow>
        newest_of env (filterSBBOrders allOrders) latest"
    by simp_all
  with body_ok(1,2) fw st show ?thesis by blast
next
  case (body_failed session s s2 w2 e w3 r4)
  then show ?thesis by simp
qed


subsection \<open>The requests of a run\<close>






section \<open>Worked runs\<close>

lemma a_request_domain: "body_shop_domain a_request = Val ''a.example''"
  by (simp add: a_request_def)

lemma run_pair: "sync_orders env req w = (fst (sync_orders env req w), snd (sync_orders env req w))"
  by simp

text \<open>
  The network is down. With storage working the run fails and the flag is cleared. When
  the read of \<open>setSyncingFlag(false)\<close>, the fourth storage call, fails, the flag stays
  \<open>true\<close>. When the write of \<open>setSyncingFlag(true)\<close>, the third, fails, the shop table is
  as it was.
\<close>

theorem sync_clears_flag_witness:
  "fst (sync_orders (env_with no_faults network_down) a_request (world_with None)) =
     Failed ''fetch failed'' \<and>
   last_storage_call_succeeded (env_with no_faults network_down)
     (snd (sync_orders (env_with no_faults network_down) a_request (world_with None))) \<and>
   checkpoint_field (snd (sync_orders (env_with no_faults network_down) a_request (world_with None)))
     ''a.example'' is_syncing = Val False \<and>
   fst (sync_orders (env_with (fault_at 3) network_down) a_request (world_with None)) =
     Failed ''storage is down'' \<and>
   storage_calls (world_with None)
     (snd (sync_orders (env_with (fault_at 3) network_down) a_request (world_with None))) = 4 \<and>
   checkpoint_field
     (snd (sync_orders (env_with (fault_at 3) network_down) a_request (world_with None)))
     ''a.example'' is_syncing = Val True \<and>
   fst (sync_orders (env_with (fault_at 2) network_down) a_request (world_with None)) =
     Failed ''storage is down'' \<and>
   storage_calls (world_with None)
     (snd (sync_orders (env_with (fault_at 2) network_down) a_request (world_with None))) = 3 \<and>
   shops_table (snd (sync_orders (env_with (fault_at 2) network_down) a_request (world_with None))) =
     shops_table (world_with None)"
proof -
  let ?W = "world_with None"
  let ?ok = "sync_orders (env_with no_faults network_down) a_request ?W"
  let ?late = "sync_orders (env_with (fault_at 3) network_down) a_request ?W"
  let ?soon = "sync_orders (env_with (fault_at 2) network_down) a_request ?W"
  have o1: "fst ?ok = Failed ''fetch failed''" by code_simp
  have g1: "passed_guard (fst ?ok)" by code_simp
  have l1: "last_storage_call_succeeded (env_with no_faults network_down) (snd ?ok)" by code_simp
  from sync_clears_flag [OF run_pair a_request_domain g1] l1
  have f1: "checkpoint_field (snd ?ok) ''a.example'' is_syncing = Val False" by simp
  have o2: "fst ?late = Failed ''storage is down''" by code_simp
  have g2: "passed_guard (fst ?late)" by code_simp
  have l2: "\<not> last_storage_call_succeeded (env_with (fault_at 3) network_down) (snd ?late)"
    by code_simp
  have c2: "storage_calls ?W (snd ?late) = 4" by code_simp
  from sync_clears_flag [OF run_pair a_request_domain g2] l2 c2
  have f2: "checkpoint_field (snd ?late) ''a.example'' is_syncing = Val True" by simp
  have o3: "fst ?soon = Failed ''storage is down''" by code_simp
  have g3: "passed_guard (fst ?soon)" by code_simp
  have l3: "\<not> last_storage_call_succeeded (env_with (fault_at 2) network_down) (snd ?soon)"
    by code_simp
  have c3: "storage_calls ?W (snd ?soon) = 3" by code_simp
  from sync_clears_flag [OF run_pair a_request_domain g3] l3 c3
  have f3: "shops_table (snd ?soon) = shops_table ?W" by simp
  from o1 l1 f1 o2 c2 f2 o3 c3 f3 show ?thesis by simp
qed

text \<open>
  C2 as stated fails: the network is down and the write of \<open>setSyncingFlag(false)\<close> fails
  as well; the run got past the guard and leaves \<open>is_syncing = true\<close>.
\<close>

theorem sync_flag_stuck_counterexample:
  "passed_guard (fst (sync_orders (env_with (fault_at 4) network_down) a_request (world_with None))) \<and>
   fst (sync_orders (env_with (fault_at 4) network_down) a_request (world_with None)) =
     Failed ''storage is down'' \<and>
   checkpoint_field
     (snd (sync_orders (env_with (fault_at 4) network_down) a_request (world_with None)))
     ''a.example'' is_syncing = Val True \<and>
   \<not> checkpoint_field
     (snd (sync_orders (env_with (fault_at 4) network_down) a_request (world_with None)))
     ''a.example'' is_syncing = Val False"
  by code_simp

text \<open>
  The shop has seven orders counted and order 1001 stored. Four orders are fetched; 1003
  and 1002 are new, 1001 is a duplicate, 1004 is not selected: the total becomes nine.
  When the checkpoint write, the seventh storage call, fails, the two orders are stored
  and the total is still seven.
\<close>

theorem total_orders_synced_accumulates_witness:
  "stored_total synced_world ''a.example'' = 7 \<and>
   fst (sync_orders (env_with no_faults (\<lambda>n. four_orders_page)) a_request synced_world) =
     Synced 2 1 9 20 ''2024-02-01T00:00:04'' \<and>
   int (card (created_in_run synced_world
     (snd (sync_orders (env_with no_faults (\<lambda>n. four_orders_page)) a_request synced_world)))) = 2 \<and>
   checkpoint_field
     (snd (sync_orders (env_with no_faults (\<lambda>n. four_orders_page)) a_request synced_world))
     ''a.example'' total_orders_synced = Val 9 \<and>
   fst (sync_orders (env_with (fault_at 6) (\<lambda>n. four_orders_page)) a_request synced_world) =
     Failed ''storage is down'' \<and>
   newly_created synced_world
     (snd (sync_orders (env_with (fault_at 6) (\<lambda>n. four_orders_page)) a_request synced_world))
     ''1003'' \<and>
   stored_total
     (snd (sync_orders (env_with (fault_at 6) (\<lambda>n. four_orders_page)) a_request synced_world))
     ''a.example'' = 7"
proof -
  let ?run = "sync_orders (env_with no_faults (\<lambda>n. four_orders_page)) a_request synced_world"
  let ?bad = "sync_orders (env_with (fault_at 6) (\<lambda>n. four_orders_page)) a_request synced_world"
  have z: "stored_total synced_world ''a.example'' = 7" by code_simp
  have o: "fst ?run = Synced 2 1 9 20 ''2024-02-01T00:00:04''" by code_simp
  from total_orders_synced_accumulates
    [OF run_pair a_request_domain, of "env_with no_faults (\<lambda>n. four_orders_page)" synced_world]
    o z
  have r: "int (card (created_in_run synced_world (snd ?run))) = 2"
    "checkpoint_field (snd ?run) ''a.example'' total_orders_synced = Val 9"
    by simp_all
  have b: "fst ?bad = Failed ''storage is down''" by code_simp
  have n: "newly_created synced_world (snd ?bad) ''1003''" by code_simp
  from total_orders_synced_accumulates
    [OF run_pair a_request_domain, of "env_with (fault_at 6) (\<lambda>n. four_orders_page)" synced_world]
    b z
  have k: "stored_total (snd ?bad) ''a.example'' = 7" by simp
  from z o r b n k show ?thesis by simp
qed

text \<open>
  C7 as stated fails: the run stores order 1001, then its checkpoint write fails; the
  order is new and the stored total is what it was.
\<close>

theorem total_misses_created_order_counterexample:
  "newly_created (world_with None)
     (snd (sync_orders (env_with (fault_at 4) (\<lambda>n. two_orders_page)) a_request (world_with None)))
     ''1001'' \<and>
   stored_total
     (snd (sync_orders (env_with (fault_at 4) (\<lambda>n. two_orders_page)) a_request (world_with None)))
     ''a.example'' = stored_total (world_with None) ''a.example''"
  by code_simp

text \<open>
  Of the four orders fetched, 1001, 1003 and 1002 are selected, in this order; the
  checkpoint takes order 1003, the newest of them, which is neither the first nor the last.
\<close>

theorem high_water_mark_of_selection_witness:
  "fst (sync_orders (env_with no_faults (\<lambda>n. four_orders_page)) a_request synced_world) =
     Synced 2 1 9 20 ''2024-02-01T00:00:04'' \<and>
   map order_id (filterSBBOrders
     (map transformGraphQLOrder
        [node_with ''1001'' ''2024-01-01'' True, node_with ''1003'' ''2024-01-03'' True,
         node_with ''1004'' ''2024-01-04'' False, node_with ''1002'' ''2024-01-02'' True])) =
     [''1001'', ''1003'', ''1002''] \<and>
   checkpoint_field
     (snd (sync_orders (env_with no_faults (\<lambda>n. four_orders_page)) a_request synced_world))
     ''a.example'' last_synced_order_id = Val ''1003'' \<and>
   checkpoint_field
     (snd (sync_orders (env_with no_faults (\<lambda>n. four_orders_page)) a_request synced_world))
     ''a.example'' last_synced_order_number = Val ''#1003'' \<and>
   checkpoint_field
     (snd (sync_orders (env_with no_faults (\<lambda>n. four_orders_page)) a_request synced_world))
     ''a.example'' last_synced_order_created_at = Val ''2024-01-03''"
proof -
  let ?E = "env_with no_faults (\<lambda>n. four_orders_page)"
  let ?run = "sync_orders ?E a_request synced_world"
  let ?o1 = "transformGraphQLOrder (node_with ''1001'' ''2024-01-01'' True)"
  let ?o2 = "transformGraphQLOrder (node_with ''1002'' ''2024-01-02'' True)"
  let ?o3 = "transformGraphQLOrder (node_with ''1003'' ''2024-01-03'' True)"
  let ?fetched = "map transformGraphQLOrder
        [node_with ''1001'' ''2024-01-01'' True, node_with ''1003'' ''2024-01-03'' True,
         node_with ''1004'' ''2024-01-04'' False, node_with ''1002'' ''2024-01-02'' True]"
  have o: "?run = (Synced 2 1 9 20 ''2024-02-01T00:00:04'', snd ?run)"
    by (rule prod_eqI) (code_simp, simp)
  have f: "fst ?run = Synced 2 1 9 20 ''2024-02-01T00:00:04''" by code_simp
  have s: "shops_table synced_world ''a.example'' = Some (shop_with (Some synced_checkpoint))"
    and b: "body_session a_request = Some a_session"
    by (simp_all add: synced_world_def world_with_def a_request_def)
  have fe: "fst (fetchOrders ?E a_session (fetchOptions (shop_with (Some synced_checkpoint)))
      synced_world) = Inr ?fetched"
    by code_simp
  have sel: "filterSBBOrders ?fetched = [?o1, ?o3, ?o2]" by code_simp
  have ids: "map order_id (filterSBBOrders ?fetched) = [''1001'', ''1003'', ''1002'']"
    by code_simp
  have v: "valid_dates ?E [?o1, ?o3, ?o2]" by code_simp
  have k1: "\<not> newest_of ?E [?o1, ?o3, ?o2] ?o1" by code_simp
  have k2: "\<not> newest_of ?E [?o1, ?o3, ?o2] ?o2" by code_simp
  have d: "order_id ?o3 = ''1003''" "number_or_name ?o3 = ''#1003''"
    "order_created_at ?o3 = ''2024-01-03''"
    by code_simp+
  from high_water_mark_of_selection [OF o a_request_domain]
  obtain session sh allOrders latest where
    h: "body_session a_request = Some session"
      "shops_table synced_world ''a.example'' = Some sh"
      "fst (fetchOrders ?E session (fetchOptions sh) synced_world) = Inr allOrders"
      "latest \<in> set (filterSBBOrders allOrders)"
      "valid_dates ?E (filterSBBOrders allOrders) \<longrightarrow>
         newest_of ?E (filterSBBOrders allOrders) latest"
      "checkpoint_field (snd ?run) ''a.example'' last_synced_order_created_at =
         Val (order_created_at latest)"
      "checkpoint_field (snd ?run) ''a.example'' last_synced_order_id = Val (order_id latest)"
      "checkpoint_field (snd ?run) ''a.example'' last_synced_order_number =
         Val (number_or_name latest)"
    by blast
  from h(1,2) s b have "session = a_session" "sh = shop_with (Some synced_checkpoint)"
    by simp_all
  with h(3) fe have a: "allOrders = ?fetched" by simp
  from h(5) v have n: "newest_of ?E [?o1, ?o3, ?o2] latest" unfolding a sel by simp
  from h(4) have "latest = ?o1 \<or> latest = ?o3 \<or> latest = ?o2" unfolding a sel by simp
  with n k1 k2 have "latest = ?o3" by blast
  with h(6,7,8) d f ids show ?thesis by simp
qed

text \<open>
  C3 as stated fails: order 1002 is fetched in the run and is newer than order 1001, and
  the checkpoint holds the creation time of order 1001, the newest of the selected orders.
\<close>

theorem high_water_mark_counterexample:
  "fst (sync_orders (env_with no_faults (\<lambda>n. two_orders_page)) a_request (world_with None)) =
     Synced 1 0 1 10 ''2024-02-01T00:00:02'' \<and>
   fst (fetchOrders (env_with no_faults (\<lambda>n. two_orders_page)) a_session
          (fetchOptions (shop_with None)) (world_with None)) =
     Inr [transformGraphQLOrder tagged_node, transformGraphQLOrder plain_node] \<and>
   checkpoint_field
     (snd (sync_orders (env_with no_faults (\<lambda>n. two_orders_page)) a_request (world_with None)))
     ''a.example'' last_synced_order_created_at = Val ''2024-01-01'' \<and>
   \<not> max_created_at (env_with no_faults (\<lambda>n. two_orders_page))
       [transformGraphQLOrder tagged_node, transformGraphQLOrder plain_node] ''2024-01-01'' \<and>
   max_created_at (env_with no_faults (\<lambda>n. two_orders_page))
       (filterSBBOrders [transformGraphQLOrder tagged_node, transformGraphQLOrder plain_node])
       ''2024-01-01''"
  by code_simp



end
